theory Spec2Isabelle
  imports Main "HOL-Library.Sublist"
begin

section \<open>YaDisk.py: a client of a cloud-storage REST service\<close>

text \<open>
  The module \<^verbatim>\<open>Basic_Python_Diploma/YaDisk.py\<close> defines the class \<^verbatim>\<open>YaDisk\<close>, whose
  methods query and change a remote disk over HTTP, and two data holders
  \<^verbatim>\<open>YaFile\<close> and \<^verbatim>\<open>YaFolder\<close>.  The embedding below keeps the methods' names.
  What Python leaves implicit is written out:
  \<^item> the remote service is a deterministic transducer: a state and a function from
    a state and a request to a response and the next state;
  \<^item> the object's mutable attributes (\<^verbatim>\<open>all_files\<close>, \<^verbatim>\<open>all_folders\<close>), the remote
    state and everything the program prints or sends are fields of a record
    \<open>world\<close> that every method takes and returns;
  \<^item> a raised exception is the outcome \<open>Raises\<close>; a loop that the source does not
    bound runs on fuel and its not returning is the outcome \<open>Timeout\<close>;
  \<^item> what \<^verbatim>\<open>input()\<close> reads and what the local file system holds are parameters.
\<close>

subsection \<open>Python strings\<close>

text \<open>\<^verbatim>\<open>sub in s\<close> for strings: \<open>sub\<close> occurs in \<open>s\<close> as a contiguous block.\<close>

primrec py_in :: "string \<Rightarrow> string \<Rightarrow> bool" where
  "py_in sub [] = (sub = [])"
| "py_in sub (c # cs) = (prefix sub (c # cs) \<or> py_in sub cs)"

text \<open>
  \<^verbatim>\<open>s.split(sep)\<close> for a non-empty separator: the pieces between the
  non-overlapping occurrences of \<open>sep\<close>, found from the left.  \<open>cur\<close> is the piece
  being read.  (Python raises ValueError on an empty separator; every separator in
  the module is non-empty, and \<open>py_split\<close> then returns the string unsplit.)
\<close>

function py_split_from :: "string \<Rightarrow> string \<Rightarrow> string \<Rightarrow> string list" where
  "py_split_from sep cur [] = [cur]"
| "py_split_from sep cur (c # cs) =
     (if sep \<noteq> [] \<and> prefix sep (c # cs)
      then cur # py_split_from sep [] (drop (length sep) (c # cs))
      else py_split_from sep (cur @ [c]) cs)"
  by pat_completeness auto
termination
  by (relation "measure (\<lambda>(sep, cur, s). length s)") auto

definition py_split :: "string \<Rightarrow> string \<Rightarrow> string list" where
  "py_split sep s = py_split_from sep [] s"

text \<open>\<^verbatim>\<open>s.replace("\\", "/")\<close>: every backslash (character 0x5C) becomes a slash.\<close>

definition backslash :: char where
  "backslash = CHR 0x5C"

definition replace_backslash :: "string \<Rightarrow> string" where
  "replace_backslash s = map (\<lambda>c. if c = backslash then CHR ''/'' else c) s"

text \<open>\<^verbatim>\<open>", ".join(names)\<close>.\<close>

fun py_join :: "string \<Rightarrow> string list \<Rightarrow> string" where
  "py_join sep [] = []"
| "py_join sep [x] = x"
| "py_join sep (x # y # ys) = x @ sep @ py_join sep (y # ys)"

subsection \<open>Exceptions and outcomes\<close>

datatype error = KeyError | IndexError | ValueError | OSError

text \<open>
  A call returns a value and the world it leaves, raises an exception in some
  world, or is still running when the fuel ends.
\<close>

datatype ('a, 'w) outcome = Returns 'a 'w | Raises error 'w | Timeout

subsection \<open>The data model\<close>

text \<open>
  One element of \<^verbatim>\<open>response.json()['_embedded']['items']\<close>: a dictionary.  The
  keys the modelled methods read are kept.  The service gives no \<^verbatim>\<open>size\<close> for a
  directory, so the key may be missing.
\<close>

record item =
  item_type :: string
  item_name :: string
  item_path :: string
  item_size :: "int option"

text \<open>
  An instance of \<^verbatim>\<open>YaFile\<close> or \<^verbatim>\<open>YaFolder\<close>: the attributes the modelled methods
  read (\<^verbatim>\<open>name\<close>, \<^verbatim>\<open>path\<close>, \<^verbatim>\<open>size\<close>, \<^verbatim>\<open>type\<close>).  Both constructors copy them from
  the dictionary; \<^verbatim>\<open>item['size']\<close> raises KeyError when the key is missing.
\<close>

record entry =
  ename :: string
  epath :: string
  esize :: int
  etype :: string

definition YaFile :: "item \<Rightarrow> entry option" where
  "YaFile it = (case item_size it of
      None \<Rightarrow> None
    | Some sz \<Rightarrow> Some \<lparr>ename = item_name it, epath = item_path it, esize = sz, etype = item_type it\<rparr>)"

definition YaFolder :: "item \<Rightarrow> entry option" where
  "YaFolder it = (case item_size it of
      None \<Rightarrow> None
    | Some sz \<Rightarrow> Some \<lparr>ename = item_name it, epath = item_path it, esize = sz, etype = item_type it\<rparr>)"

subsection \<open>Requests and responses\<close>

datatype verb = GET | PUT | DELETE | POST

text \<open>
  A value of the \<^verbatim>\<open>params\<close> dictionary handed to \<^verbatim>\<open>requests\<close>: a string, or a
  list of strings (\<^verbatim>\<open>upload\<close> hands the result of a \<^verbatim>\<open>split\<close> to
  \<^verbatim>\<open>create_folder\<close> as its path).
\<close>

datatype pyval = Str string | StrList "string list"

datatype payload = NoData | FileData string | Multipart string

datatype request = Request verb string "(string \<times> pyval) list" payload

text \<open>
  The body of a response as \<^verbatim>\<open>.json()\<close> reads it: the keys \<^verbatim>\<open>href\<close>,
  \<^verbatim>\<open>message\<close> and \<^verbatim>\<open>_embedded.items\<close>, each present or not.  (The service answers
  the requests whose body the module reads with JSON.)
\<close>

record jsondoc =
  j_href :: "string option"
  j_message :: "string option"
  j_items :: "item list option"

record response =
  status_code :: nat
  json :: jsondoc

type_synonym 's server = "'s \<Rightarrow> request \<Rightarrow> response \<times> 's"

subsection \<open>The world\<close>

text \<open>What the program prints, one constructor per \<^verbatim>\<open>print\<close> of the module.\<close>

datatype message =
    Dot
  | Loading
  | Reloading
  | Doc string
  | Listing string nat entry int
  | Top10Lines "(nat \<times> entry) list"
  | Biggest string entry
  | FolderList
  | DirIndex nat entry
  | Prompt
  | FolderCreated string
  | FolderExists string
  | Creator nat string
  | ResponseObject nat
  | Blank
  | Deleting
  | DirLine nat entry
  | Segments "string list"
  | Param "(string \<times> pyval) list"
  | Json jsondoc
  | Uploaded string
  | AlreadyUploaded string

datatype event =
    Sent request response
  | Printed message
  | Dumped string string int

record 's world =
  remote :: 's
  all_files :: "entry list"
  all_folders :: "entry list"
  out :: "event list"

definition emit :: "event \<Rightarrow> 's world \<Rightarrow> 's world" where
  "emit e w = w\<lparr>out := out w @ [e]\<rparr>"

definition py_print :: "message \<Rightarrow> 's world \<Rightarrow> 's world" where
  "py_print m w = emit (Printed m) w"

definition URL :: string where
  "URL = ''https://cloud-api.yandex.net/v1/disk/resources''"

text \<open>One call of \<^verbatim>\<open>requests\<close>: the service answers and moves on; the exchange is logged.\<close>

definition requests :: "'s server \<Rightarrow> request \<Rightarrow> 's world \<Rightarrow> response \<times> 's world" where
  "requests srv req w =
     (case srv (remote w) req of
        (resp, s') \<Rightarrow> (resp, emit (Sent req resp) (w\<lparr>remote := s'\<rparr>)))"

subsection \<open>Reports: \<^verbatim>\<open>find_biggest\<close>, \<^verbatim>\<open>print_all\<close>, \<^verbatim>\<open>top10\<close>\<close>

text \<open>What a reporting method returns: \<^verbatim>\<open>None\<close>, one entry, or a collection.\<close>

datatype retval = PyNone | Obj entry | Coll "entry list"

text \<open>
  \<^verbatim>\<open>(obj_type is None) or (obj_type != 'file' and obj_type != 'folder')\<close>,
  with \<^verbatim>\<open>None\<close> as \<open>None\<close>.
\<close>

definition bad_obj_type :: "string option \<Rightarrow> bool" where
  "bad_obj_type obj_type =
     (obj_type = None \<or> (obj_type \<noteq> Some ''file'' \<and> obj_type \<noteq> Some ''folder''))"

text \<open>
  \<^verbatim>\<open>max(lst, key=lambda obj: obj.size)\<close>: the first entry of greatest size;
  ValueError on the empty list.
\<close>

fun py_max_from :: "entry \<Rightarrow> entry list \<Rightarrow> entry" where
  "py_max_from best [] = best"
| "py_max_from best (x # xs) = py_max_from (if esize best < esize x then x else best) xs"

definition py_max :: "entry list \<Rightarrow> entry option" where
  "py_max lst = (case lst of [] \<Rightarrow> None | x # xs \<Rightarrow> Some (py_max_from x xs))"

text \<open>
  \<^verbatim>\<open>sorted(collection, key=lambda obj: obj.size, reverse=True)\<close>: Python sorts
  stably, also under \<^verbatim>\<open>reverse=True\<close>, so this is the stable ascending sort by
  the negated size.
\<close>

definition py_sorted_reverse :: "entry list \<Rightarrow> entry list" where
  "py_sorted_reverse collection = sort_key (\<lambda>obj. - esize obj) collection"

definition find_biggest :: "string option \<Rightarrow> 's world \<Rightarrow> (retval, 's world) outcome" where
  "find_biggest obj_type w =
     (if bad_obj_type obj_type then Returns PyNone (py_print (Doc ''find_biggest'') w)
      else
        let lst = (if obj_type = Some ''file'' then all_files w else all_folders w);
            filename = (if obj_type = Some ''file'' then ''biggest_file_info.json''
                        else ''biggest_folder_info.json'')
        in case py_max lst of
             None \<Rightarrow> Raises ValueError w
           | Some max_size_object \<Rightarrow>
               Returns (Obj max_size_object)
                 (py_print (Biggest (the obj_type) max_size_object)
                    (emit (Dumped filename (ename max_size_object) (esize max_size_object)) w)))"

text \<open>The invalid branch of \<^verbatim>\<open>print_all\<close> prints the docstring of \<^verbatim>\<open>top10\<close>, as the source does.\<close>

definition print_all :: "string option \<Rightarrow> 's world \<Rightarrow> (retval, 's world) outcome" where
  "print_all obj_type w =
     (if bad_obj_type obj_type then Returns PyNone (py_print (Doc ''top10'') w)
      else
        let collection = (if obj_type = Some ''file'' then all_files w else all_folders w)
        in Returns (Coll collection)
             (fold (\<lambda>(num, f). py_print (Listing (the obj_type) num f (esize f)))
                (enumerate 0 collection) w))"

text \<open>
  \<^verbatim>\<open>top10\<close> builds the lines \<^verbatim>\<open>f'{num}. {i}, {self._size(i)}'\<close> and returns what
  \<^verbatim>\<open>print\<close> returns.  A line is kept as the pair of its number and its entry: the
  text of \<^verbatim>\<open>_size\<close> is floating-point formatting of the entry's size.
\<close>

definition top10 :: "string option \<Rightarrow> 's world \<Rightarrow> (retval, 's world) outcome" where
  "top10 obj_type w =
     (if bad_obj_type obj_type then Returns PyNone (py_print (Doc ''top10'') w)
      else
        let collection = (if obj_type = Some ''file'' then all_files w else all_folders w);
            top10 = take 10 (py_sorted_reverse collection);
            top_10 = enumerate 1 top10
        in Returns PyNone (py_print (Top10Lines top_10) w))"

subsection \<open>The catalogue walk: \<^verbatim>\<open>_parse_catalogues\<close>, \<^verbatim>\<open>reload\<close>, \<^verbatim>\<open>__init__\<close>\<close>

text \<open>
  \<^verbatim>\<open>_parse_catalogues\<close> calls itself for every directory the service lists, so its
  depth is the service's to decide: \<open>fuel\<close> bounds the depth, and a walk deeper than
  that is \<open>Timeout\<close>.  \<open>parse_items\<close> is the \<^verbatim>\<open>for\<close> loop over the listed items, with
  the running total \<^verbatim>\<open>yadisk_size\<close>.  A response without \<^verbatim>\<open>_embedded.items\<close> raises
  KeyError, and so does an item of a file without \<^verbatim>\<open>size\<close>.
\<close>

fun parse_catalogues :: "nat \<Rightarrow> 's server \<Rightarrow> string \<Rightarrow> 's world \<Rightarrow> (int, 's world) outcome"
  and parse_items :: "nat \<Rightarrow> 's server \<Rightarrow> item list \<Rightarrow> int \<Rightarrow> 's world \<Rightarrow> (int, 's world) outcome"
where
  "parse_catalogues 0 srv path w = Timeout"
| "parse_catalogues (Suc fuel) srv path w =
     (case requests srv (Request GET URL [(''path'', Str path)] NoData) (py_print Dot w) of
        (response, w1) \<Rightarrow>
          (case j_items (json response) of
             None \<Rightarrow> Raises KeyError w1
           | Some items \<Rightarrow> parse_items fuel srv items 0 w1))"
| "parse_items fuel srv [] yadisk_size w = Returns yadisk_size w"
| "parse_items fuel srv (it # rest) yadisk_size w =
     (if item_type it = ''dir'' then
        (case parse_catalogues fuel srv (item_path it) w of
           Returns folder_size w1 \<Rightarrow>
             (case YaFolder (it\<lparr>item_size := Some folder_size\<rparr>) of
                None \<Rightarrow> Raises KeyError w1
              | Some d \<Rightarrow>
                  parse_items fuel srv rest (yadisk_size + folder_size)
                    (w1\<lparr>all_folders := all_folders w1 @ [d]\<rparr>))
         | Raises e w1 \<Rightarrow> Raises e w1
         | Timeout \<Rightarrow> Timeout)
      else
        (case item_size it of
           None \<Rightarrow> Raises KeyError w
         | Some sz \<Rightarrow>
             (case YaFile it of
                None \<Rightarrow> Raises KeyError w
              | Some f \<Rightarrow>
                  parse_items fuel srv rest (yadisk_size + sz)
                    (w\<lparr>all_files := all_files w @ [f]\<rparr>))))"

definition reload :: "nat \<Rightarrow> 's server \<Rightarrow> 's world \<Rightarrow> (unit, 's world) outcome" where
  "reload fuel srv w =
     (case parse_catalogues fuel srv ''/''
             (py_print Reloading (w\<lparr>all_folders := [], all_files := []\<rparr>)) of
        Returns yadisk_size w' \<Rightarrow> Returns () w'
      | Raises e w' \<Rightarrow> Raises e w'
      | Timeout \<Rightarrow> Timeout)"

text \<open>\<^verbatim>\<open>YaDisk(token)\<close>: empty collections, then the first walk.\<close>

definition YaDisk :: "nat \<Rightarrow> 's server \<Rightarrow> 's \<Rightarrow> (unit, 's world) outcome" where
  "YaDisk fuel srv s =
     (case parse_catalogues fuel srv ''/''
             (py_print Loading \<lparr>remote = s, all_files = [], all_folders = [], out = []\<rparr>) of
        Returns yadisk_size w' \<Rightarrow> Returns () w'
      | Raises e w' \<Rightarrow> Raises e w'
      | Timeout \<Rightarrow> Timeout)"

subsection \<open>\<^verbatim>\<open>create_folder\<close>\<close>

text \<open>
  What \<^verbatim>\<open>input()\<close> returned to \<^verbatim>\<open>create_folder\<close>: the empty string, a text that
  \<^verbatim>\<open>int\<close> reads as the given integer, or a text on which \<^verbatim>\<open>int\<close> raises ValueError.
  It is read only when \<^verbatim>\<open>path\<close> is \<^verbatim>\<open>None\<close>.
\<close>

datatype answer = Enter | Index int | NotANumber

text \<open>\<^verbatim>\<open>xs[i]\<close>: a negative index counts from the end; IndexError out of range.\<close>

definition py_index :: "'a list \<Rightarrow> int \<Rightarrow> 'a option" where
  "py_index xs i =
     (if 0 \<le> i \<and> i < int (length xs) then Some (xs ! nat i)
      else if i < 0 \<and> - int (length xs) \<le> i then Some (xs ! nat (int (length xs) + i))
      else None)"

text \<open>The nested \<^verbatim>\<open>_create\<close>: the PUT, and the pair of its status with \<^verbatim>\<open>href\<close> or, failing that, \<^verbatim>\<open>message\<close>.\<close>

definition create :: "'s server \<Rightarrow> (string \<times> pyval) list \<Rightarrow> 's world \<Rightarrow> (nat \<times> string, 's world) outcome" where
  "create srv param w =
     (case requests srv (Request PUT URL param NoData) w of
        (put, w1) \<Rightarrow>
          (case j_href (json put) of
             Some h \<Rightarrow> Returns (status_code put, h) w1
           | None \<Rightarrow>
               (case j_message (json put) of
                  Some m \<Rightarrow> Returns (status_code put, m) w1
                | None \<Rightarrow> Raises KeyError w1)))"

text \<open>The first \<^verbatim>\<open>if\<close> of \<^verbatim>\<open>create_folder\<close>: the \<^verbatim>\<open>params\<close> of the requests that follow.\<close>

definition folder_param ::
  "answer \<Rightarrow> string \<Rightarrow> pyval option \<Rightarrow> 's world \<Rightarrow> ((string \<times> pyval) list, 's world) outcome" where
  "folder_param tree folder_name path w =
     (case path of
        Some p \<Rightarrow> Returns [(''path'', p)] w
      | None \<Rightarrow>
          (let w1 = py_print (Prompt)
                      (fold (\<lambda>(num, d). py_print (DirIndex num d)) (enumerate 0 (all_folders w))
                         (py_print FolderList w))
           in case tree of
                Enter \<Rightarrow> Returns [(''path'', Str folder_name)] w1
              | NotANumber \<Rightarrow> Raises ValueError w1
              | Index i \<Rightarrow>
                  (case py_index (all_folders w1) i of
                     None \<Rightarrow> Raises IndexError w1
                   | Some d \<Rightarrow> Returns [(''path'', Str (epath d @ ''/'' @ folder_name))] w1)))"

text \<open>
  The tail of \<^verbatim>\<open>create_folder\<close>, run on every path through the \<^verbatim>\<open>if\<close> chain:
  \<^verbatim>\<open>self.reload()\<close>, the heading, \<^verbatim>\<open>self.print_all('folder')\<close>.
\<close>

definition reload_and_list :: "nat \<Rightarrow> 's server \<Rightarrow> 's world \<Rightarrow> (unit, 's world) outcome" where
  "reload_and_list fuel srv w =
     (case reload fuel srv w of
        Returns u w1 \<Rightarrow>
          (case print_all (Some ''folder'') (py_print FolderList w1) of
             Returns c w2 \<Rightarrow> Returns () w2
           | Raises e w2 \<Rightarrow> Raises e w2
           | Timeout \<Rightarrow> Timeout)
      | Raises e w1 \<Rightarrow> Raises e w1
      | Timeout \<Rightarrow> Timeout)"

definition create_folder ::
  "nat \<Rightarrow> 's server \<Rightarrow> answer \<Rightarrow> string \<Rightarrow> pyval option \<Rightarrow> 's world \<Rightarrow> (unit, 's world) outcome" where
  "create_folder fuel srv tree folder_name path w =
     (case folder_param tree folder_name path w of
        Raises e w0 \<Rightarrow> Raises e w0
      | Timeout \<Rightarrow> Timeout
      | Returns param w0 \<Rightarrow>
          (case requests srv (Request GET URL param NoData) w0 of
             (test, w1) \<Rightarrow>
               if status_code test = 404 then
                 (case create srv param w1 of
                    Raises e w2 \<Rightarrow> Raises e w2
                  | Timeout \<Rightarrow> Timeout
                  | Returns creator w2 \<Rightarrow>
                      if fst creator = 201
                      then reload_and_list fuel srv
                             (py_print Blank (py_print (FolderCreated folder_name) w2))
                      else reload_and_list fuel srv
                             (py_print Blank (py_print (Creator (fst creator) (snd creator)) w2)))
               else if status_code test = 200 then
                 reload_and_list fuel srv (py_print Blank (py_print (FolderExists folder_name) w1))
               else
                 reload_and_list fuel srv (py_print (ResponseObject (status_code test)) w1)))"

subsection \<open>\<^verbatim>\<open>delete\<close>\<close>

text \<open>
  The nested \<^verbatim>\<open>_check_existance\<close>: one query, then queries until one answers 404.
  The source does not bound the loop; each further query takes one unit of fuel.
\<close>

fun check_loop ::
  "nat \<Rightarrow> 's server \<Rightarrow> (string \<times> pyval) list \<Rightarrow> response \<Rightarrow> 's world \<Rightarrow> (string, 's world) outcome" where
  "check_loop 0 srv param test w =
     (if status_code test \<noteq> 404 then Timeout else Returns ''OK'' w)"
| "check_loop (Suc fuel) srv param test w =
     (if status_code test \<noteq> 404
      then (case requests srv (Request GET URL param NoData) w of
              (test', w') \<Rightarrow> check_loop fuel srv param test' w')
      else Returns ''OK'' w)"

definition check_existance ::
  "nat \<Rightarrow> 's server \<Rightarrow> (string \<times> pyval) list \<Rightarrow> 's world \<Rightarrow> (string, 's world) outcome" where
  "check_existance fuel srv param w =
     (case requests srv (Request GET URL param NoData) w of
        (test, w1) \<Rightarrow> check_loop fuel srv param test w1)"

text \<open>\<^verbatim>\<open>objects\<close> is one object or a list of objects.\<close>

datatype target = One entry | Many "entry list"

text \<open>
  What \<^verbatim>\<open>delete\<close> returns: the pair of a status and a body, or one of its two
  sentences with the names of the deleted objects.
\<close>

datatype deleted = Failure nat jsondoc | Permanently string | ToTrash string

definition delete_param :: "bool \<Rightarrow> entry \<Rightarrow> (string \<times> pyval) list" where
  "delete_param perm_del obj =
     [(''path'', Str (epath obj))] @ (if perm_del then [(''permanently'', Str ''true'')] else [])"

text \<open>
  The body both branches of \<^verbatim>\<open>isinstance(objects, list)\<close> share, for one object:
  the DELETE, the early \<^verbatim>\<open>return\<close> on a status from 300 up (\<open>Some\<close> of the pair),
  else the wait for the 404.
\<close>

definition delete_object ::
  "nat \<Rightarrow> 's server \<Rightarrow> bool \<Rightarrow> entry \<Rightarrow> 's world \<Rightarrow> ((nat \<times> jsondoc) option, 's world) outcome" where
  "delete_object fuel srv perm_del obj w =
     (case requests srv (Request DELETE URL (delete_param perm_del obj) NoData) w of
        (put, w1) \<Rightarrow>
          if 300 \<le> status_code put then Returns (Some (status_code put, json put)) w1
          else (case check_existance fuel srv (delete_param perm_del obj) w1 of
                  Returns ok w2 \<Rightarrow> Returns None w2
                | Raises e w2 \<Rightarrow> Raises e w2
                | Timeout \<Rightarrow> Timeout))"

text \<open>The \<^verbatim>\<open>for obj in objects\<close> loop: it ends at the first early \<^verbatim>\<open>return\<close>.\<close>

fun delete_objects ::
  "nat \<Rightarrow> 's server \<Rightarrow> bool \<Rightarrow> entry list \<Rightarrow> 's world \<Rightarrow> ((nat \<times> jsondoc) option, 's world) outcome" where
  "delete_objects fuel srv perm_del [] w = Returns None w"
| "delete_objects fuel srv perm_del (obj # objs) w =
     (case delete_object fuel srv perm_del obj w of
        Returns (Some failure) w1 \<Rightarrow> Returns (Some failure) w1
      | Returns None w1 \<Rightarrow> delete_objects fuel srv perm_del objs w1
      | Raises e w1 \<Rightarrow> Raises e w1
      | Timeout \<Rightarrow> Timeout)"

definition delete :: "nat \<Rightarrow> 's server \<Rightarrow> string \<Rightarrow> target \<Rightarrow> 's world \<Rightarrow> (deleted, 's world) outcome" where
  "delete fuel srv permanent objects w =
     (let perm_del = (permanent = ''1'');
          w0 = py_print Prompt (py_print Deleting w)
      in case (case objects of
                 Many objs \<Rightarrow> delete_objects fuel srv perm_del objs w0
               | One obj \<Rightarrow> delete_object fuel srv perm_del obj w0) of
           Raises e w1 \<Rightarrow> Raises e w1
         | Timeout \<Rightarrow> Timeout
         | Returns (Some failure) w1 \<Rightarrow> Returns (Failure (fst failure) (snd failure)) w1
         | Returns None w1 \<Rightarrow>
             (let string = (case objects of
                              Many objs \<Rightarrow> py_join '', '' (map ename objs)
                            | One obj \<Rightarrow> ename obj)
              in case reload fuel srv w1 of
                   Raises e w2 \<Rightarrow> Raises e w2
                 | Timeout \<Rightarrow> Timeout
                 | Returns u w2 \<Rightarrow>
                     Returns (if perm_del then Permanently string else ToTrash string)
                       (py_print Blank
                          (fold (\<lambda>(num, d). py_print (DirLine num d))
                             (enumerate 0 (all_folders w2)) w2))))"

subsection \<open>\<^verbatim>\<open>upload\<close>\<close>

text \<open>
  The local file system and the platform, as \<^verbatim>\<open>upload\<close> reads them:
  \<^verbatim>\<open>os.path.exists(os.path.abspath(x))\<close>, \<^verbatim>\<open>os.path.isdir\<close>, the triples of
  \<^verbatim>\<open>os.walk(os.path.curdir)\<close>, \<^verbatim>\<open>os.listdir\<close>, the bytes \<^verbatim>\<open>open(x, 'rb')\<close> gives,
  \<^verbatim>\<open>os.path.getsize\<close> (the last three \<open>None\<close> where the call raises OSError), and
  the texts \<^verbatim>\<open>str(likes)\<close> and \<^verbatim>\<open>str(datetime.fromtimestamp(date).date())\<close>.
\<close>

record localfs =
  path_exists :: "string \<Rightarrow> bool"
  isdir :: "string \<Rightarrow> bool"
  walk :: "(string \<times> string list \<times> string list) list"
  listdir :: "string \<Rightarrow> string list option"
  open_rb :: "string \<Rightarrow> string option"
  getsize :: "string \<Rightarrow> nat option"
  str_of :: "int \<Rightarrow> string"
  date_of :: "int \<Rightarrow> string"

text \<open>
  \<^verbatim>\<open>os.path.join(a, b)\<close> for a relative \<open>b\<close> and an \<open>a\<close> that does not end in a
  separator, on the platform whose separator is the backslash (the module cuts
  the local path at \<^verbatim>\<open>'.\\'\<close>).
\<close>

definition os_path_join :: "string \<Rightarrow> string \<Rightarrow> string" where
  "os_path_join a b = a @ [backslash] @ b"

text \<open>
  The nested \<^verbatim>\<open>_check_folder_exist\<close>.  \<^verbatim>\<open>folder[0]\<close> is \<open>hd folder\<close> and
  \<^verbatim>\<open>folder[-1]\<close> is \<open>last folder\<close>: a \<^verbatim>\<open>split\<close> is never empty.  The first
  \<^verbatim>\<open>create_folder\<close> call gets the list \<^verbatim>\<open>folder\<close> as its path, as in the source.
\<close>

definition check_folder_exist ::
  "nat \<Rightarrow> 's server \<Rightarrow> string \<Rightarrow> string \<Rightarrow> 's world \<Rightarrow> (unit, 's world) outcome" where
  "check_folder_exist fuel srv folder_name target_folderpath w =
     (case requests srv (Request GET URL [(''path'', Str target_folderpath)] NoData) w of
        (test, w1) \<Rightarrow>
          if py_in ''/'' target_folderpath then
            (if status_code test = 404 then
               (let folder = py_split ''/'' target_folderpath
                in case requests srv (Request GET URL [(''path'', Str (hd folder))] NoData)
                          (py_print (Segments folder) w1) of
                     (test2, w2) \<Rightarrow>
                       if status_code test2 = 404 then
                         (case create_folder fuel srv Enter (hd folder) (Some (StrList folder)) w2 of
                            Returns u w3 \<Rightarrow>
                              create_folder fuel srv Enter (last folder)
                                (Some (Str target_folderpath)) w3
                          | Raises e w3 \<Rightarrow> Raises e w3
                          | Timeout \<Rightarrow> Timeout)
                       else create_folder fuel srv Enter folder_name
                              (Some (Str target_folderpath)) w2)
             else Returns () w1)
          else create_folder fuel srv Enter folder_name (Some (Str target_folderpath)) w1)"

text \<open>
  The loop of the nested \<^verbatim>\<open>_upload_folder\<close> over \<^verbatim>\<open>os.listdir(folder_path)\<close>.  Only
  KeyError is caught; \<^verbatim>\<open>open\<close> comes after the request for the upload address.
  (The message the function returns is not read by its caller.)
\<close>

fun upload_folder_files ::
  "'s server \<Rightarrow> localfs \<Rightarrow> string \<Rightarrow> string list \<Rightarrow> 's world \<Rightarrow> (unit, 's world) outcome" where
  "upload_folder_files srv fs folder_path [] w = Returns () w"
| "upload_folder_files srv fs folder_path (file # rest) w =
     (case requests srv (Request GET (URL @ ''/upload'')
                           [(''path'', Str (folder_path @ ''/'' @ file))] NoData) w of
        (r, w1) \<Rightarrow>
          (case j_href (json r) of
             None \<Rightarrow>
               upload_folder_files srv fs folder_path rest (py_print (AlreadyUploaded file) w1)
           | Some href \<Rightarrow>
               (case open_rb fs (os_path_join folder_path file) of
                  None \<Rightarrow> Raises OSError w1
                | Some content \<Rightarrow>
                    (case requests srv (Request PUT href [] (FileData content)) w1 of
                       (r2, w2) \<Rightarrow> upload_folder_files srv fs folder_path rest w2))))"

definition upload_folder ::
  "'s server \<Rightarrow> localfs \<Rightarrow> string \<Rightarrow> 's world \<Rightarrow> (unit, 's world) outcome" where
  "upload_folder srv fs folder_path w =
     (case listdir fs folder_path of
        None \<Rightarrow> Raises OSError w
      | Some file_list \<Rightarrow> upload_folder_files srv fs folder_path file_list w)"

text \<open>The nested \<^verbatim>\<open>_upload_file\<close>: it asks for the upload address twice and prints the first answer.\<close>

definition upload_file ::
  "'s server \<Rightarrow> localfs \<Rightarrow> string \<Rightarrow> string \<Rightarrow> string \<Rightarrow> 's world \<Rightarrow> (unit, 's world) outcome" where
  "upload_file srv fs file targetpath fullpath w =
     (let param = [(''path'', Str (targetpath @ ''/'' @ file))]
      in case requests srv (Request GET (URL @ ''/upload'') param NoData)
                (py_print (Param param) w) of
           (r1, w1) \<Rightarrow>
             (case requests srv (Request GET (URL @ ''/upload'') param NoData)
                     (py_print (Json (json r1)) w1) of
                (r2, w2) \<Rightarrow>
                  (case j_href (json r2) of
                     None \<Rightarrow> Returns () (py_print (AlreadyUploaded file) w2)
                   | Some href \<Rightarrow>
                       (case getsize fs fullpath of
                          None \<Rightarrow> Raises OSError w2
                        | Some file_size \<Rightarrow>
                            (case open_rb fs fullpath of
                               None \<Rightarrow> Raises OSError w2
                             | Some content \<Rightarrow>
                                 (case requests srv (Request PUT href [] (Multipart content)) w2 of
                                    (r3, w3) \<Rightarrow> Returns () (py_print (Uploaded file) w3)))))))"

text \<open>The nested \<^verbatim>\<open>_upload_url\<close>, and the loop over the photographs.\<close>

definition upload_url ::
  "'s server \<Rightarrow> localfs \<Rightarrow> string \<Rightarrow> string \<times> int \<times> int \<Rightarrow> 's world \<Rightarrow> 's world" where
  "upload_url srv fs target_folderpath photo w =
     (case photo of
        (url, likes, date) \<Rightarrow>
          snd (requests srv
                 (Request POST (URL @ ''/upload'')
                    [(''path'', Str (target_folderpath @ ''/'' @ str_of fs likes @ ''_''
                                       @ date_of fs date @ ''.jpg'')),
                     (''url'', Str url)] NoData) w))"

text \<open>
  The end of \<^verbatim>\<open>upload\<close>: \<^verbatim>\<open>self.reload()\<close>, \<^verbatim>\<open>self.print_all('file')\<close>,
  \<^verbatim>\<open>self.print_all('folder')\<close>.
\<close>

definition reload_and_list_all :: "nat \<Rightarrow> 's server \<Rightarrow> 's world \<Rightarrow> (unit, 's world) outcome" where
  "reload_and_list_all fuel srv w =
     (case reload fuel srv w of
        Returns u w1 \<Rightarrow>
          (case print_all (Some ''file'') w1 of
             Returns c w2 \<Rightarrow>
               (case print_all (Some ''folder'') w2 of
                  Returns c' w3 \<Rightarrow> Returns () w3
                | Raises e w3 \<Rightarrow> Raises e w3
                | Timeout \<Rightarrow> Timeout)
           | Raises e w2 \<Rightarrow> Raises e w2
           | Timeout \<Rightarrow> Timeout)
      | Raises e w1 \<Rightarrow> Raises e w1
      | Timeout \<Rightarrow> Timeout)"

text \<open>
  \<^verbatim>\<open>object_full_path\<close>: the name itself when it exists, else the last match of the
  scan (a \<^verbatim>\<open>for\<close> without \<^verbatim>\<open>break\<close> runs its \<^verbatim>\<open>else\<close>, so files are looked at
  after directories under every root).  \<open>None\<close> is the initial value \<^verbatim>\<open>str\<close>, the
  type itself: \<^verbatim>\<open>str.split('.\\')\<close> is then \<^verbatim>\<open>'.\\'.split()\<close>, a list of one piece, and
  \<^verbatim>\<open>[1]\<close> raises IndexError.
\<close>

definition find_local :: "localfs \<Rightarrow> string \<Rightarrow> string option" where
  "find_local fs object =
     (if path_exists fs object then Some (os_path_join ''.'' object)
      else fold (\<lambda>(root, dirs, files) found.
                   let found1 = (if object \<in> set dirs then Some (os_path_join root object)
                                 else found)
                   in if object \<in> set files then Some (os_path_join root object) else found1)
             (walk fs) None)"

text \<open>
  The argument of \<^verbatim>\<open>upload\<close>: a pair of photographs (address, likes, timestamp)
  and an album name, or the name of a local file or directory.
\<close>

datatype uploadable = Photos "(string \<times> int \<times> int) list" string | Name string

text \<open>
  The branch of \<^verbatim>\<open>upload\<close> for a name that contains \<^verbatim>\<open>.zip\<close>: the first file whose
  name up to its first dot is the name up to its first \<^verbatim>\<open>.zip\<close>, else the first such
  folder; \<^verbatim>\<open>upload\<close> returns right after the transfer.  Without a match the loops
  end and \<^verbatim>\<open>upload\<close> goes on to its last three lines.
\<close>

definition upload_zip ::
  "nat \<Rightarrow> 's server \<Rightarrow> localfs \<Rightarrow> string \<Rightarrow> string \<Rightarrow> 's world \<Rightarrow> (unit, 's world) outcome" where
  "upload_zip fuel srv fs object object_full_path w =
     (let name = hd (py_split ''.zip'' object)
      in case find (\<lambda>file. hd (py_split ''.'' (ename file)) = name) (all_files w) of
           Some file \<Rightarrow>
             upload_file srv fs object (hd (py_split (''/'' @ ename file) (epath file)))
               object_full_path w
         | None \<Rightarrow>
             (case find (\<lambda>folder. hd (py_split ''.'' (ename folder)) = name) (all_folders w) of
                Some folder \<Rightarrow>
                  upload_file srv fs object (hd (py_split (''/'' @ ename folder) (epath folder)))
                    object_full_path w
              | None \<Rightarrow> reload_and_list_all fuel srv w))"

definition upload ::
  "nat \<Rightarrow> 's server \<Rightarrow> localfs \<Rightarrow> uploadable \<Rightarrow> 's world \<Rightarrow> (unit, 's world) outcome" where
  "upload fuel srv fs obj w =
     (case obj of
        Photos photos folder_name \<Rightarrow>
          (case check_folder_exist fuel srv folder_name (''photos'' @ ''/'' @ folder_name) w of
             Returns u w1 \<Rightarrow>
               reload_and_list_all fuel srv
                 (fold (upload_url srv fs (''photos'' @ ''/'' @ folder_name)) photos w1)
           | Raises e w1 \<Rightarrow> Raises e w1
           | Timeout \<Rightarrow> Timeout)
      | Name object \<Rightarrow>
          if length object = 2 then
            (case check_folder_exist fuel srv [object ! 1] (''photos'' @ ''/'' @ [object ! 1]) w of
               Returns u w1 \<Rightarrow> Raises ValueError w1
             | Raises e w1 \<Rightarrow> Raises e w1
             | Timeout \<Rightarrow> Timeout)
          else
            (case find_local fs object of
               None \<Rightarrow> Raises IndexError w
             | Some object_full_path \<Rightarrow>
                 (case py_split (''.'' @ [backslash]) object_full_path of
                    first # second # others \<Rightarrow>
                      (let object_realpath = replace_backslash second
                       in if isdir fs object_full_path then
                            (case check_folder_exist fuel srv object object_realpath w of
                               Returns u w1 \<Rightarrow>
                                 (case upload_folder srv fs object_realpath w1 of
                                    Returns u' w2 \<Rightarrow> reload_and_list_all fuel srv w2
                                  | Raises e w2 \<Rightarrow> Raises e w2
                                  | Timeout \<Rightarrow> Timeout)
                             | Raises e w1 \<Rightarrow> Raises e w1
                             | Timeout \<Rightarrow> Timeout)
                          else if py_in ''.zip'' object then
                            upload_zip fuel srv fs object object_full_path w
                          else
                            (let target_folderpath = hd (py_split (''/'' @ object) object_realpath)
                             in case check_folder_exist fuel srv target_folderpath
                                       target_folderpath w of
                                  Returns u w1 \<Rightarrow>
                                    (case upload_file srv fs object target_folderpath
                                            object_full_path w1 of
                                       Returns u' w2 \<Rightarrow> reload_and_list_all fuel srv w2
                                     | Raises e w2 \<Rightarrow> Raises e w2
                                     | Timeout \<Rightarrow> Timeout)
                                | Raises e w1 \<Rightarrow> Raises e w1
                                | Timeout \<Rightarrow> Timeout))
                  | pieces \<Rightarrow> Raises IndexError w)))"

section \<open>Remote trees\<close>

text \<open>
  A remote disk whose content does not change while it is walked: a forest of
  files (name, size) and directories (name, the \<^verbatim>\<open>size\<close> key of the directory's own
  item if the service sends one, children).  The item of a node under the parent
  path \<open>p\<close> has the path \<open>p/name\<close>.
\<close>

datatype node = File string int | Dir string "int option" "node list"

fun node_name :: "node \<Rightarrow> string" where
  "node_name (File nm sz) = nm"
| "node_name (Dir nm rep cs) = nm"

fun item_of :: "string \<Rightarrow> node \<Rightarrow> item" where
  "item_of p (File nm sz) =
     \<lparr>item_type = ''file'', item_name = nm, item_path = p @ ''/'' @ nm, item_size = Some sz\<rparr>"
| "item_of p (Dir nm rep cs) =
     \<lparr>item_type = ''dir'', item_name = nm, item_path = p @ ''/'' @ nm, item_size = rep\<rparr>"

text \<open>The sum of the sizes of the files at and below a node.\<close>

fun tree_size :: "node \<Rightarrow> int" where
  "tree_size (File nm sz) = sz"
| "tree_size (Dir nm rep cs) = sum_list (map tree_size cs)"

fun depth :: "node \<Rightarrow> nat" where
  "depth (File nm sz) = 0"
| "depth (Dir nm rep cs) = Suc (foldr max (map depth cs) 0)"

text \<open>
  The entries a walk is to find at and below a node under the parent path \<open>p\<close>:
  files in listing order, folders each after everything below it.
\<close>

fun files_of :: "string \<Rightarrow> node \<Rightarrow> entry list" where
  "files_of p (File nm sz) =
     [\<lparr>ename = nm, epath = p @ ''/'' @ nm, esize = sz, etype = ''file''\<rparr>]"
| "files_of p (Dir nm rep cs) = concat (map (files_of (p @ ''/'' @ nm)) cs)"

fun folders_of :: "string \<Rightarrow> node \<Rightarrow> entry list" where
  "folders_of p (File nm sz) = []"
| "folders_of p (Dir nm rep cs) =
     concat (map (folders_of (p @ ''/'' @ nm)) cs)
     @ [\<lparr>ename = nm, epath = p @ ''/'' @ nm, esize = sum_list (map tree_size cs), etype = ''dir''\<rparr>]"

text \<open>
  In state \<open>s\<close> the service answers the query for \<open>q\<close> with the given items and
  stays in \<open>s\<close>.
\<close>

definition answers :: "'s server \<Rightarrow> 's \<Rightarrow> string \<Rightarrow> item list \<Rightarrow> bool" where
  "answers srv s q items =
     (case srv s (Request GET URL [(''path'', Str q)] NoData) of
        (r, s') \<Rightarrow> s' = s \<and> j_items (json r) = Some items)"

text \<open>Every directory at and below the node is listed by the service under its own path.\<close>

fun listed :: "'s server \<Rightarrow> 's \<Rightarrow> string \<Rightarrow> node \<Rightarrow> bool" where
  "listed srv s p (File nm sz) = True"
| "listed srv s p (Dir nm rep cs) =
     (answers srv s (p @ ''/'' @ nm) (map (item_of (p @ ''/'' @ nm)) cs)
      \<and> list_all (listed srv s (p @ ''/'' @ nm)) cs)"


text \<open>Names hold no slash, and the names in one directory differ.\<close>

fun wf_node :: "node \<Rightarrow> bool" where
  "wf_node (File nm sz) = (CHR ''/'' \<notin> set nm)"
| "wf_node (Dir nm rep cs) =
     (CHR ''/'' \<notin> set nm \<and> distinct (map node_name cs) \<and> list_all wf_node cs)"

definition wf_tree :: "node list \<Rightarrow> bool" where
  "wf_tree ns = (distinct (map node_name ns) \<and> list_all wf_node ns)"

text \<open>
  The path is \<open>p/nm\<close> or goes on below it: \<open>p/nm/...\<close>.
\<close>

definition below :: "string \<Rightarrow> string \<Rightarrow> string \<Rightarrow> bool" where
  "below p nm path = (\<exists>r. path = p @ CHR ''/'' # nm @ r \<and> (r = [] \<or> (\<exists>t. r = CHR ''/'' # t)))"

text \<open>The path \<open>path\<close> lies below the folder path \<open>folder\<close>.\<close>

definition is_descendant :: "string \<Rightarrow> string \<Rightarrow> bool" where
  "is_descendant path folder = prefix (folder @ ''/'') path"

text \<open>
  The world \<open>w'\<close> has the remote state of \<open>w\<close> and its catalogue with the
  files \<open>fs\<close> and the folders \<open>ds\<close> appended.
\<close>

definition extends :: "'s world \<Rightarrow> 's world \<Rightarrow> entry list \<Rightarrow> entry list \<Rightarrow> bool" where
  "extends w w' fs ds = (remote w' = remote w \<and> all_files w' = all_files w @ fs \<and> all_folders w' = all_folders w @ ds)"

subsection \<open>Example worlds and services\<close>

definition ok :: "item list \<Rightarrow> response" where
  "ok its = \<lparr>status_code = 200, json = \<lparr>j_href = None, j_message = None, j_items = Some its\<rparr>\<rparr>"

definition answer :: "nat \<Rightarrow> string \<Rightarrow> response" where
  "answer code msg =
     \<lparr>status_code = code, json = \<lparr>j_href = None, j_message = Some msg, j_items = None\<rparr>\<rparr>"

text \<open>The \<^verbatim>\<open>path\<close> parameter of a GET request that carries it first, as a string.\<close>

fun query_path :: "request \<Rightarrow> string option" where
  "query_path (Request GET u ((k, Str q) # ps) d) = (if k = ''path'' then Some q else None)"
| "query_path req = None"

text \<open>A disk four levels deep, and a service that lists it and never changes.\<close>

definition deeper :: "node list" where
  "deeper = [File ''c.txt'' 4]"

definition deep :: "node list" where
  "deep = [Dir ''deeper'' None deeper]"

definition docs :: "node list" where
  "docs = [File ''b.txt'' 2, Dir ''deep'' (Some 0) deep, File ''d.txt'' 8]"

definition demo_tree :: "node list" where
  "demo_tree = [File ''a.txt'' 1, Dir ''docs'' None docs, Dir ''docs2'' None []]"

definition demo_server :: "unit server" where
  "demo_server s req =
     ((case query_path req of
         None \<Rightarrow> answer 400 ''bad request''
       | Some q \<Rightarrow>
           if q = ''/'' then ok (map (item_of ''disk:'') demo_tree)
           else if q = ''disk:/docs'' then ok (map (item_of ''disk:/docs'') docs)
           else if q = ''disk:/docs2'' then ok []
           else if q = ''disk:/docs/deep'' then ok (map (item_of ''disk:/docs/deep'') deep)
           else if q = ''disk:/docs/deep/deeper''
             then ok (map (item_of ''disk:/docs/deep/deeper'') deeper)
           else answer 404 ''not found''), s)"

definition fresh :: "unit world" where
  "fresh = \<lparr>remote = (), all_files = [], all_folders = [], out = []\<rparr>"


definition small_file :: entry where
  "small_file = \<lparr>ename = ''a.txt'', epath = ''disk:/a.txt'', esize = 5, etype = ''file''\<rparr>"

definition big_file :: entry where
  "big_file = \<lparr>ename = ''b.txt'', epath = ''disk:/b.txt'', esize = 9, etype = ''file''\<rparr>"

definition twin_file :: entry where
  "twin_file = \<lparr>ename = ''c.txt'', epath = ''disk:/c.txt'', esize = 5, etype = ''file''\<rparr>"

definition three_files :: "unit world" where
  "three_files = \<lparr>remote = (), all_files = [small_file, big_file, twin_file], all_folders = [], out = []\<rparr>"


subsection \<open>Reading the log\<close>

text \<open>The exchanges of a log, in order, and the verb of a request.\<close>

fun exchanges :: "event list \<Rightarrow> (request \<times> response) list" where
  "exchanges [] = []"
| "exchanges (Sent q r # es) = (q, r) # exchanges es"
| "exchanges (Printed m # es) = exchanges es"
| "exchanges (Dumped f n z # es) = exchanges es"

fun verb_of :: "request \<Rightarrow> verb" where
  "verb_of (Request v u ps d) = v"

definition deletions :: "event list \<Rightarrow> (request \<times> response) list" where
  "deletions es = filter (\<lambda>x. verb_of (fst x) = DELETE) (exchanges es)"

text \<open>The request \<^verbatim>\<open>delete\<close> sends for an object.\<close>

definition delete_request :: "bool \<Rightarrow> entry \<Rightarrow> request" where
  "delete_request perm_del obj = Request DELETE URL (delete_param perm_del obj) NoData"




text \<open>
  A service with one object, \<^verbatim>\<open>disk:/x\<close>, that it goes on showing for as many
  existence queries as its state counts; it accepts every DELETE but one for
  \<^verbatim>\<open>disk:/locked\<close>, lists an empty disk, and knows no other path.
\<close>

definition slow_server :: "nat server" where
  "slow_server s req =
     (case req of
        Request GET u ((k, Str q) # ps) d \<Rightarrow>
          if q = ''/'' then (ok [], s)
          else if q = ''disk:/x'' \<and> 0 < s then (answer 200 ''here'', s - 1)
          else (answer 404 ''not found'', s)
      | Request DELETE u ((k, Str q) # ps) d \<Rightarrow>
          if q = ''disk:/locked'' then (answer 423 ''locked'', s) else (answer 202 ''accepted'', s)
      | other \<Rightarrow> (answer 400 ''bad request'', s))"


definition obj_x :: entry where
  "obj_x = \<lparr>ename = ''x'', epath = ''disk:/x'', esize = 3, etype = ''file''\<rparr>"

definition obj_y :: entry where
  "obj_y = \<lparr>ename = ''y'', epath = ''disk:/y'', esize = 4, etype = ''file''\<rparr>"

definition obj_locked :: entry where
  "obj_locked = \<lparr>ename = ''locked'', epath = ''disk:/locked'', esize = 5, etype = ''file''\<rparr>"

definition slow_world :: "nat world" where
  "slow_world = \<lparr>remote = 2, all_files = [obj_x, obj_locked, obj_y], all_folders = [], out = []\<rparr>"

subsection \<open>Reading a run\<close>

text \<open>The query \<^verbatim>\<open>_check_existance\<close> sends for an object.\<close>

definition poll_request :: "bool \<Rightarrow> entry \<Rightarrow> request" where
  "poll_request perm_del obj = Request GET URL (delete_param perm_del obj) NoData"


text \<open>The requests of the log are all queries.\<close>

definition queries_only :: "event list \<Rightarrow> bool" where
  "queries_only es = (\<forall>x \<in> set (exchanges es). verb_of (fst x) = GET)"


subsection \<open>Reading an upload\<close>

text \<open>The request for the address to upload the remote path \<open>p\<close> to.\<close>

definition upload_query :: "string \<Rightarrow> request" where
  "upload_query p = Request GET (URL @ ''/upload'') [(''path'', Str p)] NoData"

text \<open>What a log prints, in order, and the PUT exchanges of a log.\<close>

fun printed :: "event list \<Rightarrow> message list" where
  "printed [] = []"
| "printed (Printed m # es) = m # printed es"
| "printed (Sent q r # es) = printed es"
| "printed (Dumped f n z # es) = printed es"

definition puts :: "event list \<Rightarrow> (request \<times> response) list" where
  "puts es = filter (\<lambda>x. verb_of (fst x) = PUT) (exchanges es)"

text \<open>
  A service that knows no upload address, and one that has an address for every
  path, finds every path and lists an empty disk.  Neither keeps a state.
\<close>

definition full_server :: "unit server" where
  "full_server s req = (answer 409 ''already exists'', s)"

definition open_server :: "unit server" where
  "open_server s req =
     (case req of
        Request GET u ((k, Str q) # ps) d \<Rightarrow>
          if u = URL @ ''/upload'' then
            (\<lparr>status_code = 200,
              json = \<lparr>j_href = Some (''up:'' @ q), j_message = None, j_items = None\<rparr>\<rparr>, s)
          else if q = ''/'' then (ok [], s)
          else (answer 200 ''found'', s)
      | other \<Rightarrow> (answer 201 ''created'', s))"

text \<open>
  A local directory \<^verbatim>\<open>d\<close> that holds the directory \<^verbatim>\<open>sub\<close> and the file \<^verbatim>\<open>a.txt\<close>:
  \<^verbatim>\<open>open\<close> raises on \<^verbatim>\<open>d\sub\<close>.
\<close>

definition local_d :: localfs where
  "local_d =
     \<lparr>path_exists = (\<lambda>x. x \<in> {''d''}),
      isdir = (\<lambda>x. x \<in> {os_path_join ''.'' ''d'', os_path_join ''d'' ''sub''}),
      walk = [(''.'', [''d''], []), (os_path_join ''.'' ''d'', [''sub''], [''a.txt''])],
      listdir = (\<lambda>x. if x = ''d'' then Some [''sub'', ''a.txt''] else None),
      open_rb = (\<lambda>x. if x = os_path_join ''d'' ''a.txt'' then Some ''content of a'' else None),
      getsize = (\<lambda>x. if x = os_path_join ''d'' ''a.txt'' then Some 12 else None),
      str_of = (\<lambda>i. ''0''),
      date_of = (\<lambda>i. ''1970-01-01'')\<rparr>"

subsection \<open>Names and extensions\<close>








subsection \<open>Services that keep folders\<close>






subsection \<open>Ancestors\<close>



section \<open>Properties\<close>

subsection \<open>Reports\<close>

lemma sorted_desc_top:
  "sorted_wrt (\<lambda>a b. esize b \<le> esize a) (take n (py_sorted_reverse xs))"
proof -
  have "sorted (map (\<lambda>obj. - esize obj) (py_sorted_reverse xs))"
    unfolding py_sorted_reverse_def by (rule sorted_sort_key)
  then have "sorted_wrt (\<lambda>a b. esize b \<le> esize a) (py_sorted_reverse xs)"
    by (simp add: sorted_wrt_map)
  then show ?thesis by (rule sorted_wrt_take)
qed

lemma stable_top:
  "prefix (filter (\<lambda>e. esize e = k) (take n (py_sorted_reverse xs)))
          (filter (\<lambda>e. esize e = k) xs)"
proof -
  have "filter (\<lambda>e. - esize e = - k) (py_sorted_reverse xs) = filter (\<lambda>e. - esize e = - k) xs"
    unfolding py_sorted_reverse_def by (rule sort_key_stable)
  then have "filter (\<lambda>e. esize e = k) (py_sorted_reverse xs) = filter (\<lambda>e. esize e = k) xs"
    by simp
  moreover have "prefix (filter (\<lambda>e. esize e = k) (take n (py_sorted_reverse xs)))
                        (filter (\<lambda>e. esize e = k) (py_sorted_reverse xs))"
    by (rule filter_mono_prefix) (rule take_is_prefix)
  ultimately show ?thesis by simp
qed

text \<open>
  C7, as amended.  \<^verbatim>\<open>top10('file')\<close> prints one block of lines and returns
  \<^verbatim>\<open>None\<close>.  The lines are numbered from 1, there are as many as there are files
  but at most ten, their entries are files of the catalogue in descending order of
  size, and for every size the printed entries of that size are the first ones of
  that size in \<^verbatim>\<open>all_files\<close>, in the order they have there.
\<close>

theorem top10_file_prints_sorted:
  "\<exists>lines. top10 (Some ''file'') w = Returns PyNone (py_print (Top10Lines lines) w)
     \<and> map fst lines = [1..<Suc (length lines)]
     \<and> length lines = min 10 (length (all_files w))
     \<and> set (map snd lines) \<subseteq> set (all_files w)
     \<and> sorted_wrt (\<lambda>a b. esize b \<le> esize a) (map snd lines)
     \<and> (\<forall>k. prefix (filter (\<lambda>e. esize e = k) (map snd lines))
                    (filter (\<lambda>e. esize e = k) (all_files w)))"
proof -
  let ?top = "take 10 (py_sorted_reverse (all_files w))"
  let ?lines = "enumerate 1 ?top"
  have run: "top10 (Some ''file'') w = Returns PyNone (py_print (Top10Lines ?lines) w)"
    by (simp add: top10_def bad_obj_type_def Let_def)
  have len: "length ?lines = min 10 (length (all_files w))"
    by (simp add: py_sorted_reverse_def min.commute)
  have nums: "map fst ?lines = [1..<Suc (length ?lines)]"
    by simp
  have sub: "set (map snd ?lines) \<subseteq> set (all_files w)"
    using set_take_subset [of 10 "py_sorted_reverse (all_files w)"]
    by (simp add: py_sorted_reverse_def)
  have srt: "sorted_wrt (\<lambda>a b. esize b \<le> esize a) (map snd ?lines)"
    by (simp add: sorted_desc_top)
  have stb: "\<forall>k. prefix (filter (\<lambda>e. esize e = k) (map snd ?lines))
                    (filter (\<lambda>e. esize e = k) (all_files w))"
    by (simp add: stable_top)
  from run nums len sub srt stb show ?thesis by blast
qed

text \<open>
  C7 as stated fails: with three files in the catalogue \<^verbatim>\<open>top10('file')\<close> returns
  \<^verbatim>\<open>None\<close>, not a collection of entries; the entries are in what it prints.
\<close>

theorem top10_returns_none:
  "top10 (Some ''file'') three_files
     = Returns PyNone
         (py_print (Top10Lines [(1, big_file), (2, small_file), (3, twin_file)]) three_files)
   \<and> (\<forall>entries w'. top10 (Some ''file'') three_files \<noteq> Returns (Coll entries) w')"
  by (simp add: top10_def bad_obj_type_def three_files_def py_sorted_reverse_def
      small_file_def big_file_def twin_file_def enumerate_eq_zip numeral_2_eq_2 numeral_3_eq_3)

text \<open>
  C10.  For an \<^verbatim>\<open>obj_type\<close> that is neither \<^verbatim>\<open>'file'\<close> nor \<^verbatim>\<open>'folder'\<close> (\<^verbatim>\<open>None\<close>
  included), \<^verbatim>\<open>find_biggest\<close>, \<^verbatim>\<open>print_all\<close> and \<^verbatim>\<open>top10\<close> return \<^verbatim>\<open>None\<close> in a world
  that differs from the one before only by one printed docstring: \<^verbatim>\<open>all_files\<close>,
  \<^verbatim>\<open>all_folders\<close> and the remote state are unchanged.
\<close>

theorem bad_obj_type_reports:
  assumes "obj_type \<noteq> Some ''file''" and "obj_type \<noteq> Some ''folder''"
  shows "find_biggest obj_type w = Returns PyNone (py_print (Doc ''find_biggest'') w)
       \<and> print_all obj_type w = Returns PyNone (py_print (Doc ''top10'') w)
       \<and> top10 obj_type w = Returns PyNone (py_print (Doc ''top10'') w)
       \<and> all_files (py_print (Doc d) w) = all_files w
       \<and> all_folders (py_print (Doc d) w) = all_folders w
       \<and> remote (py_print (Doc d) w) = remote w
       \<and> out (py_print (Doc d) w) = out w @ [Printed (Doc d)]"
  using assms
  by (simp add: find_biggest_def print_all_def top10_def bad_obj_type_def py_print_def emit_def)

theorem bad_obj_type_reports_witness:
  "find_biggest None three_files = Returns PyNone (py_print (Doc ''find_biggest'') three_files)
   \<and> print_all None three_files = Returns PyNone (py_print (Doc ''top10'') three_files)
   \<and> top10 None three_files = Returns PyNone (py_print (Doc ''top10'') three_files)
   \<and> find_biggest (Some ''files'') three_files
       = Returns PyNone (py_print (Doc ''find_biggest'') three_files)
   \<and> print_all (Some ''files'') three_files = Returns PyNone (py_print (Doc ''top10'') three_files)
   \<and> top10 (Some ''File'') three_files = Returns PyNone (py_print (Doc ''top10'') three_files)
   \<and> all_files (py_print (Doc ''top10'') three_files) = [small_file, big_file, twin_file]
   \<and> all_folders (py_print (Doc ''top10'') three_files) = []"
  using bad_obj_type_reports [of None three_files "''top10''"]
        bad_obj_type_reports [of "Some ''files''" three_files "''top10''"]
        bad_obj_type_reports [of "Some ''File''" three_files "''top10''"]
  by (simp add: three_files_def)

subsection \<open>The catalogue walk\<close>

lemma emit_fields [simp]:
  "remote (emit e w) = remote w"
  "all_files (emit e w) = all_files w"
  "all_folders (emit e w) = all_folders w"
  "out (emit e w) = out w @ [e]"
  by (simp_all add: emit_def)

lemma py_print_fields [simp]:
  "remote (py_print m w) = remote w"
  "all_files (py_print m w) = all_files w"
  "all_folders (py_print m w) = all_folders w"
  "out (py_print m w) = out w @ [Printed m]"
  by (simp_all add: py_print_def)

lemma requests_eq:
  "srv (remote w) req = (r, s') \<Longrightarrow>
   requests srv req w = (r, emit (Sent req r) (w\<lparr>remote := s'\<rparr>))"
  by (simp add: requests_def)

lemma foldr_max_le: "x \<in> set xs \<Longrightarrow> (x::nat) \<le> foldr max xs 0"
  by (induction xs) auto

lemma parse_items_listed:
  assumes IH: "\<forall>q p cs w. answers srv (remote w) q (map (item_of p) cs) \<and>
                 list_all (listed srv (remote w) p) cs \<and> foldr max (map depth cs) 0 < fuel \<longrightarrow>
                 (\<exists>w'. parse_catalogues fuel srv q w = Returns (sum_list (map tree_size cs)) w'
                      \<and> extends w w' (concat (map (files_of p) cs)) (concat (map (folders_of p) cs)))"
  shows "list_all (listed srv (remote w) p) ns \<Longrightarrow> foldr max (map depth ns) 0 \<le> fuel \<Longrightarrow>
         \<exists>w'. parse_items fuel srv (map (item_of p) ns) acc w = Returns (acc + sum_list (map tree_size ns)) w'
              \<and> extends w w' (concat (map (files_of p) ns)) (concat (map (folders_of p) ns))"
proof (induction ns arbitrary: acc w)
  case Nil
  then show ?case by (simp add: extends_def)
next
  case (Cons n ns)
  from Cons.prems have rest: "list_all (listed srv (remote w) p) ns" and dn: "depth n \<le> fuel"
    and dns: "foldr max (map depth ns) 0 \<le> fuel" and ln: "listed srv (remote w) p n"
    by auto
  show ?case
  proof (cases n)
    case (File nm sz)
    let ?f = "\<lparr>ename = nm, epath = p @ ''/'' @ nm, esize = sz, etype = ''file''\<rparr>"
    let ?w1 = "w\<lparr>all_files := all_files w @ [?f]\<rparr>"
    have "list_all (listed srv (remote ?w1) p) ns" using rest by simp
    from Cons.IH [OF this dns, of "acc + sz"]
    obtain w' where "parse_items fuel srv (map (item_of p) ns) (acc + sz) ?w1
                       = Returns (acc + sz + sum_list (map tree_size ns)) w'"
      and "extends ?w1 w' (concat (map (files_of p) ns)) (concat (map (folders_of p) ns))"
      by blast
    then show ?thesis using File
      by (simp add: YaFile_def extends_def add.assoc)
  next
    case (Dir nm rep cs)
    let ?q = "p @ ''/'' @ nm"
    from ln Dir have a: "answers srv (remote w) ?q (map (item_of ?q) cs)"
      and l: "list_all (listed srv (remote w) ?q) cs" by auto
    from dn Dir have "foldr max (map depth cs) 0 < fuel" by simp
    with IH a l obtain w1 where
      r1: "parse_catalogues fuel srv ?q w = Returns (sum_list (map tree_size cs)) w1"
      and e1: "extends w w1 (concat (map (files_of ?q) cs)) (concat (map (folders_of ?q) cs))"
      by blast
    let ?d = "\<lparr>ename = nm, epath = ?q, esize = sum_list (map tree_size cs), etype = ''dir''\<rparr>"
    let ?w2 = "w1\<lparr>all_folders := all_folders w1 @ [?d]\<rparr>"
    have "list_all (listed srv (remote ?w2) p) ns" using rest e1 by (simp add: extends_def)
    from Cons.IH [OF this dns, of "acc + sum_list (map tree_size cs)"]
    obtain w' where r2: "parse_items fuel srv (map (item_of p) ns) (acc + sum_list (map tree_size cs)) ?w2
                       = Returns (acc + sum_list (map tree_size cs) + sum_list (map tree_size ns)) w'"
      and e2: "extends ?w2 w' (concat (map (files_of p) ns)) (concat (map (folders_of p) ns))"
      by blast
    show ?thesis using Dir r1 r2 e1 e2
      by (simp add: YaFolder_def extends_def add.assoc)
  qed
qed



lemma parse_catalogues_step:
  "srv (remote w) (Request GET URL [(''path'', Str q)] NoData) = (r, s') \<Longrightarrow>
   j_items (json r) = Some its \<Longrightarrow>
   parse_catalogues (Suc fuel) srv q w =
     parse_items fuel srv its 0
       (emit (Sent (Request GET URL [(''path'', Str q)] NoData) r) ((py_print Dot w)\<lparr>remote := s'\<rparr>))"
  by (simp add: requests_def)


lemma parse_catalogues_listed:
  "answers srv (remote w) q (map (item_of p) cs) \<Longrightarrow>
   list_all (listed srv (remote w) p) cs \<Longrightarrow> foldr max (map depth cs) 0 < fuel \<Longrightarrow>
   \<exists>w'. parse_catalogues fuel srv q w = Returns (sum_list (map tree_size cs)) w'
        \<and> extends w w' (concat (map (files_of p) cs)) (concat (map (folders_of p) cs))"
proof (induction fuel arbitrary: q p cs w)
  case 0
  then show ?case by simp
next
  case (Suc fuel)
  obtain r s' where srv: "srv (remote w) (Request GET URL [(''path'', Str q)] NoData) = (r, s')"
    by (cases "srv (remote w) (Request GET URL [(''path'', Str q)] NoData)")
  with Suc.prems(1) have s': "s' = remote w" and items: "j_items (json r) = Some (map (item_of p) cs)"
    by (auto simp: answers_def)
  define w1 where "w1 = emit (Sent (Request GET URL [(''path'', Str q)] NoData) r) ((py_print Dot w)\<lparr>remote := s'\<rparr>)"
  have rem: "remote w1 = remote w" and af: "all_files w1 = all_files w" and ad: "all_folders w1 = all_folders w"
    using s' by (simp_all add: w1_def)
  have step: "parse_catalogues (Suc fuel) srv q w = parse_items fuel srv (map (item_of p) cs) 0 w1"
    unfolding w1_def
    by (rule parse_catalogues_step [of srv w q r s' "map (item_of p) cs" fuel, OF srv items])
  have l: "list_all (listed srv (remote w1) p) cs" using Suc.prems(2) rem by simp
  have d: "foldr max (map depth cs) 0 \<le> fuel" using Suc.prems(3) by simp
  have IH': "\<forall>q p cs w. answers srv (remote w) q (map (item_of p) cs) \<and>
                 list_all (listed srv (remote w) p) cs \<and> foldr max (map depth cs) 0 < fuel \<longrightarrow>
                 (\<exists>w'. parse_catalogues fuel srv q w = Returns (sum_list (map tree_size cs)) w'
                      \<and> extends w w' (concat (map (files_of p) cs)) (concat (map (folders_of p) cs)))"
    using Suc.IH by blast
  have "\<exists>w'. parse_items fuel srv (map (item_of p) cs) 0 w1 = Returns (sum_list (map tree_size cs)) w'
         \<and> extends w1 w' (concat (map (files_of p) cs)) (concat (map (folders_of p) cs))"
    using parse_items_listed [of srv fuel w1 p cs 0, OF IH' l d] by simp
  then obtain w' where r: "parse_items fuel srv (map (item_of p) cs) 0 w1 = Returns (sum_list (map tree_size cs)) w'"
    and e: "extends w1 w' (concat (map (files_of p) cs)) (concat (map (folders_of p) cs))"
    by blast
  have "extends w w' (concat (map (files_of p) cs)) (concat (map (folders_of p) cs))"
    using e rem af ad by (simp add: extends_def)
  moreover have "parse_catalogues (Suc fuel) srv q w = Returns (sum_list (map tree_size cs)) w'"
    using step r by (simp only:)
  ultimately show ?case by blast
qed

lemma sum_list_map_concat:
  "sum_list (map f (concat xss)) = sum_list (map (\<lambda>xs. sum_list (map f xs)) xss)"
  by (induction xss) auto

lemma sum_files_of: "sum_list (map esize (files_of p n)) = tree_size n"
proof (induction p n rule: files_of.induct)
  case (1 p nm sz)
  then show ?case by simp
next
  case (2 p nm rep cs)
  have "sum_list (map esize (concat (map (files_of (p @ ''/'' @ nm)) cs)))
        = sum_list (map (\<lambda>c. sum_list (map esize (files_of (p @ ''/'' @ nm) c))) cs)"
    by (simp add: sum_list_map_concat comp_def)
  also have "\<dots> = sum_list (map tree_size cs)"
    using "2.IH" by (simp cong: map_cong)
  finally show ?case by simp
qed

lemma below_deeper: "below (p @ CHR ''/'' # nm) x path \<Longrightarrow> below p nm path"
  by (auto simp: below_def)

lemma path_files_of: "f \<in> set (files_of p n) \<Longrightarrow> below p (node_name n) (epath f)"
proof (induction p n arbitrary: f rule: files_of.induct)
  case (1 p nm sz)
  then show ?case by (simp add: below_def)
next
  case (2 p nm rep cs)
  then obtain c where "c \<in> set cs" and "f \<in> set (files_of (p @ ''/'' @ nm) c)" by auto
  with "2.IH" have "below (p @ ''/'' @ nm) (node_name c) (epath f)" by blast
  then show ?case using below_deeper [of p nm "node_name c" "epath f"] by simp
qed

lemma path_folders_of: "F \<in> set (folders_of p n) \<Longrightarrow> below p (node_name n) (epath F)"
proof (induction p n arbitrary: F rule: folders_of.induct)
  case (1 p nm sz)
  then show ?case by simp
next
  case (2 p nm rep cs)
  show ?case
  proof (cases "F \<in> set (concat (map (folders_of (p @ ''/'' @ nm)) cs))")
    case True
    then obtain c where "c \<in> set cs" and "F \<in> set (folders_of (p @ ''/'' @ nm) c)" by auto
    with "2.IH" have "below (p @ ''/'' @ nm) (node_name c) (epath F)" by blast
    then show ?thesis using below_deeper [of p nm "node_name c" "epath F"] by simp
  next
    case False
    with "2.prems" have "epath F = p @ ''/'' @ nm" by auto
    then show ?thesis by (simp add: below_def)
  qed
qed

lemma first_segment:
  "CHR ''/'' \<notin> set a \<Longrightarrow> CHR ''/'' \<notin> set b \<Longrightarrow> a @ CHR ''/'' # x = b @ CHR ''/'' # y \<Longrightarrow> a = b"
proof (induction a arbitrary: b)
  case Nil
  then show ?case by (cases b) auto
next
  case (Cons c a)
  then show ?case by (cases b) auto
qed

lemma not_descendant:
  assumes a: "CHR ''/'' \<notin> set a" and b: "CHR ''/'' \<notin> set b" and ne: "a \<noteq> b"
    and F: "below p a folder" and f: "below p b path"
  shows "\<not> is_descendant path folder"
proof
  assume "is_descendant path folder"
  then obtain z where z: "path = folder @ ''/'' @ z" by (auto simp: is_descendant_def prefix_def)
  from F obtain r2 where r2: "folder = p @ CHR ''/'' # a @ r2" by (auto simp: below_def)
  from f obtain r where r: "path = p @ CHR ''/'' # b @ r" and rr: "r = [] \<or> (\<exists>t. r = CHR ''/'' # t)"
    by (auto simp: below_def)
  from F r2 have "r2 = [] \<or> (\<exists>t. r2 = CHR ''/'' # t)" by (auto simp: below_def)
  then obtain t' where t': "r2 @ ''/'' @ z = CHR ''/'' # t'" by auto
  from z r2 r have "b @ r = a @ r2 @ ''/'' @ z" by simp
  with t' have eq: "b @ r = a @ CHR ''/'' # t'" by simp
  from rr show False
  proof
    assume "r = []"
    with eq have "CHR ''/'' \<in> set b" by auto
    with b show False by simp
  next
    assume "\<exists>t. r = CHR ''/'' # t"
    then obtain t where "r = CHR ''/'' # t" by blast
    with eq have "a @ CHR ''/'' # t' = b @ CHR ''/'' # t" by simp
    with a b have "a = b" by (rule first_segment)
    with ne show False by simp
  qed
qed


lemma wf_node_name: "wf_node n \<Longrightarrow> CHR ''/'' \<notin> set (node_name n)"
  by (cases n) auto

lemma filter_concat_one:
  "distinct (map k cs) \<Longrightarrow> c \<in> set cs \<Longrightarrow>
   (\<And>c'. c' \<in> set cs \<Longrightarrow> k c' \<noteq> k c \<Longrightarrow> filter P (g c') = []) \<Longrightarrow>
   filter P (concat (map g cs)) = filter P (g c)"
proof (induction cs)
  case Nil
  then show ?case by simp
next
  case (Cons x xs)
  show ?case
  proof (cases "c = x")
    case True
    have "\<And>c'. c' \<in> set xs \<Longrightarrow> filter P (g c') = []"
    proof -
      fix c' assume c': "c' \<in> set xs"
      have "k c' \<in> k ` set xs" using c' by (rule imageI)
      moreover have "k x \<notin> k ` set xs" using Cons.prems(1) by simp
      ultimately have "k c' \<noteq> k c" using True by auto
      with Cons.prems(3) c' show "filter P (g c') = []" by simp
    qed
    then have "filter P (concat (map g xs)) = []"
      by (induction xs) auto
    with True show ?thesis by simp
  next
    case False
    with Cons.prems(2) have cxs: "c \<in> set xs" by simp
    then have "k c \<in> k ` set xs" by (rule imageI)
    moreover have "k x \<notin> k ` set xs" using Cons.prems(1) by simp
    ultimately have "k x \<noteq> k c" by auto
    with Cons.prems(3) have "filter P (g x) = []" by simp
    moreover have "filter P (concat (map g xs)) = filter P (g c)"
      using Cons.IH Cons.prems(1) cxs Cons.prems(3) by simp
    ultimately show ?thesis by simp
  qed
qed

lemma siblings_folder_sizes:
  assumes dist: "distinct (map node_name cs)" and wf: "list_all wf_node cs"
    and each: "\<And>c G. c \<in> set cs \<Longrightarrow> G \<in> set (folders_of q c) \<Longrightarrow>
          esize G = sum_list (map esize (filter (\<lambda>f. is_descendant (epath f) (epath G)) (files_of q c)))"
    and F: "F \<in> set (concat (map (folders_of q) cs))"
  shows "esize F = sum_list (map esize (filter (\<lambda>f. is_descendant (epath f) (epath F))
                     (concat (map (files_of q) cs))))"
proof -
  from F obtain c where c: "c \<in> set cs" and Fc: "F \<in> set (folders_of q c)" by auto
  have Fb: "below q (node_name c) (epath F)" using Fc by (rule path_folders_of)
  have nc: "CHR ''/'' \<notin> set (node_name c)" using wf c by (auto simp: list_all_iff wf_node_name)
  have other: "\<And>c'. c' \<in> set cs \<Longrightarrow> node_name c' \<noteq> node_name c \<Longrightarrow>
       filter (\<lambda>f. is_descendant (epath f) (epath F)) (files_of q c') = []"
  proof -
    fix c' assume c': "c' \<in> set cs" and ne: "node_name c' \<noteq> node_name c"
    have nc': "CHR ''/'' \<notin> set (node_name c')" using wf c' by (auto simp: list_all_iff wf_node_name)
    have "\<And>f. f \<in> set (files_of q c') \<Longrightarrow> \<not> is_descendant (epath f) (epath F)"
    proof -
      fix f assume "f \<in> set (files_of q c')"
      then have "below q (node_name c') (epath f)" by (rule path_files_of)
      with nc nc' ne Fb show "\<not> is_descendant (epath f) (epath F)"
        using not_descendant [of "node_name c" "node_name c'" q "epath F" "epath f"] by auto
    qed
    then show "filter (\<lambda>f. is_descendant (epath f) (epath F)) (files_of q c') = []"
      by (simp add: filter_empty_conv)
  qed
  have "filter (\<lambda>f. is_descendant (epath f) (epath F)) (concat (map (files_of q) cs))
        = filter (\<lambda>f. is_descendant (epath f) (epath F)) (files_of q c)"
    using dist c other by (rule filter_concat_one)
  with each [OF c Fc] show ?thesis by simp
qed

lemma folder_sizes:
  "wf_node n \<Longrightarrow> F \<in> set (folders_of p n) \<Longrightarrow>
   esize F = sum_list (map esize (filter (\<lambda>f. is_descendant (epath f) (epath F)) (files_of p n)))"
proof (induction p n arbitrary: F rule: files_of.induct)
  case (1 p nm sz)
  then show ?case by simp
next
  case (2 p nm rep cs)
  let ?q = "p @ ''/'' @ nm"
  from "2.prems"(1) have dist: "distinct (map node_name cs)" and wf: "list_all wf_node cs" by auto
  have each: "\<And>c G. c \<in> set cs \<Longrightarrow> G \<in> set (folders_of ?q c) \<Longrightarrow>
          esize G = sum_list (map esize (filter (\<lambda>f. is_descendant (epath f) (epath G)) (files_of ?q c)))"
    using "2.IH" wf by (auto simp: list_all_iff)
  show ?case
  proof (cases "F \<in> set (concat (map (folders_of ?q) cs))")
    case True
    from siblings_folder_sizes [OF dist wf each True] show ?thesis by simp
  next
    case False
    with "2.prems"(2) have F: "F = \<lparr>ename = nm, epath = ?q, esize = sum_list (map tree_size cs), etype = ''dir''\<rparr>"
      by auto
    have "\<And>f. f \<in> set (concat (map (files_of ?q) cs)) \<Longrightarrow> is_descendant (epath f) ?q"
    proof -
      fix f assume "f \<in> set (concat (map (files_of ?q) cs))"
      then obtain c where "c \<in> set cs" and "f \<in> set (files_of ?q c)" by auto
      then have "below ?q (node_name c) (epath f)" using path_files_of by blast
      then show "is_descendant (epath f) ?q" by (auto simp: below_def is_descendant_def)
    qed
    then have "filter (\<lambda>f. is_descendant (epath f) ?q) (concat (map (files_of ?q) cs))
               = concat (map (files_of ?q) cs)"
      by (simp add: filter_id_conv)
    moreover have "sum_list (map esize (concat (map (files_of ?q) cs))) = sum_list (map tree_size cs)"
      by (simp add: sum_list_map_concat sum_files_of comp_def)
    ultimately show ?thesis using F by simp
  qed
qed

text \<open>
  C1.  Let the service list, for the path \<open>root\<close>, the nodes \<open>ns\<close> of a forest under
  the parent path \<open>p\<close> (for the whole disk \<open>root\<close> is \<^verbatim>\<open>/\<close> and \<open>p\<close> is \<^verbatim>\<open>disk:\<close>; for a
  folder both are the folder's path) and every directory below them, with names
  that hold no slash and differ within each directory.  Let the walk start with
  empty collections and fuel beyond the forest's depth.  Then \<^verbatim>\<open>_parse_catalogues\<close>
  returns, and its value is the sum of the sizes of all files of the forest.  It
  leaves in \<^verbatim>\<open>all_files\<close> exactly the files of the forest, in listing order, and in
  \<^verbatim>\<open>all_folders\<close> exactly its directories, each after everything below it and each
  with the total of its own subtree as its size, whatever \<^verbatim>\<open>size\<close> the service sent
  for it (the computed size is put into the item before \<^verbatim>\<open>YaFolder\<close> reads it:
  \<open>parse_items\<close>).  The value returned is the sum over \<^verbatim>\<open>all_files\<close>, and the size of
  every entry of \<^verbatim>\<open>all_folders\<close> is the sum of the sizes of the entries of
  \<^verbatim>\<open>all_files\<close> whose path lies below the folder's path.
\<close>

theorem walk_folder_sizes:
  assumes root: "answers srv (remote w) root (map (item_of p) ns)"
    and sub: "list_all (listed srv (remote w) p) ns"
    and wf: "wf_tree ns"
    and nofiles: "all_files w = []" and nofolders: "all_folders w = []"
    and fuel: "foldr max (map depth ns) 0 < fuel"
  shows "\<exists>w'. parse_catalogues fuel srv root w = Returns (sum_list (map tree_size ns)) w'
       \<and> all_files w' = concat (map (files_of p) ns)
       \<and> all_folders w' = concat (map (folders_of p) ns)
       \<and> remote w' = remote w
       \<and> sum_list (map tree_size ns) = sum_list (map esize (all_files w'))
       \<and> (\<forall>F \<in> set (all_folders w').
             esize F = sum_list (map esize
                         (filter (\<lambda>f. is_descendant (epath f) (epath F)) (all_files w'))))"
proof -
  from parse_catalogues_listed [of srv w root p ns fuel, OF root sub fuel]
  obtain w' where run: "parse_catalogues fuel srv root w = Returns (sum_list (map tree_size ns)) w'"
    and ext: "extends w w' (concat (map (files_of p) ns)) (concat (map (folders_of p) ns))"
    by blast
  from ext nofiles nofolders have files: "all_files w' = concat (map (files_of p) ns)"
    and folders: "all_folders w' = concat (map (folders_of p) ns)"
    and rem: "remote w' = remote w"
    by (simp_all add: extends_def)
  have total: "sum_list (map tree_size ns) = sum_list (map esize (all_files w'))"
    by (simp add: files sum_list_map_concat sum_files_of comp_def)
  from wf have dist: "distinct (map node_name ns)" and wfs: "list_all wf_node ns"
    by (simp_all add: wf_tree_def)
  have each: "\<And>c G. c \<in> set ns \<Longrightarrow> G \<in> set (folders_of p c) \<Longrightarrow>
          esize G = sum_list (map esize (filter (\<lambda>f. is_descendant (epath f) (epath G)) (files_of p c)))"
    using wfs folder_sizes by (auto simp: list_all_iff)
  have "\<forall>F \<in> set (all_folders w').
          esize F = sum_list (map esize (filter (\<lambda>f. is_descendant (epath f) (epath F)) (all_files w')))"
    unfolding files folders
    using siblings_folder_sizes [OF dist wfs each] by blast
  with run files folders rem total show ?thesis by blast
qed

lemma demo_root: "answers demo_server () ''/'' (map (item_of ''disk:'') demo_tree)"
  by (simp add: answers_def demo_server_def ok_def URL_def)

lemma demo_listed: "list_all (listed demo_server () ''disk:'') demo_tree"
  by (simp add: answers_def demo_server_def demo_tree_def docs_def deep_def deeper_def ok_def URL_def)

lemma demo_docs_root: "answers demo_server () ''disk:/docs'' (map (item_of ''disk:/docs'') docs)"
  by (simp add: answers_def demo_server_def ok_def URL_def)

lemma demo_docs_listed: "list_all (listed demo_server () ''disk:/docs'') docs"
  by (simp add: answers_def demo_server_def docs_def deep_def deeper_def ok_def URL_def)

lemma demo_wf: "wf_tree demo_tree"
  by (simp add: wf_tree_def demo_tree_def docs_def deep_def deeper_def)

lemma demo_docs_wf: "wf_tree docs"
  by (simp add: wf_tree_def docs_def deep_def deeper_def)

text \<open>
  The walk of the example disk from \<^verbatim>\<open>/\<close>, and the walk of its folder
  \<^verbatim>\<open>disk:/docs\<close>.  The service sends the size 0 for \<^verbatim>\<open>deep\<close> and none for the other
  directories.
\<close>

theorem walk_folder_sizes_witness:
  "answers demo_server () ''/'' (map (item_of ''disk:'') demo_tree)
   \<and> list_all (listed demo_server () ''disk:'') demo_tree \<and> wf_tree demo_tree
   \<and> (\<exists>w'. parse_catalogues 4 demo_server ''/'' fresh = Returns 15 w'
         \<and> all_files w' =
             [\<lparr>ename = ''a.txt'', epath = ''disk:/a.txt'', esize = 1, etype = ''file''\<rparr>,
              \<lparr>ename = ''b.txt'', epath = ''disk:/docs/b.txt'', esize = 2, etype = ''file''\<rparr>,
              \<lparr>ename = ''c.txt'', epath = ''disk:/docs/deep/deeper/c.txt'', esize = 4,
                etype = ''file''\<rparr>,
              \<lparr>ename = ''d.txt'', epath = ''disk:/docs/d.txt'', esize = 8, etype = ''file''\<rparr>]
         \<and> all_folders w' =
             [\<lparr>ename = ''deeper'', epath = ''disk:/docs/deep/deeper'', esize = 4, etype = ''dir''\<rparr>,
              \<lparr>ename = ''deep'', epath = ''disk:/docs/deep'', esize = 4, etype = ''dir''\<rparr>,
              \<lparr>ename = ''docs'', epath = ''disk:/docs'', esize = 14, etype = ''dir''\<rparr>,
              \<lparr>ename = ''docs2'', epath = ''disk:/docs2'', esize = 0, etype = ''dir''\<rparr>]
         \<and> 15 = sum_list (map esize (all_files w'))
         \<and> (\<forall>F \<in> set (all_folders w').
               esize F = sum_list (map esize
                           (filter (\<lambda>f. is_descendant (epath f) (epath F)) (all_files w')))))
   \<and> (\<exists>w'. parse_catalogues 3 demo_server ''disk:/docs'' fresh = Returns 14 w'
         \<and> all_files w' =
             [\<lparr>ename = ''b.txt'', epath = ''disk:/docs/b.txt'', esize = 2, etype = ''file''\<rparr>,
              \<lparr>ename = ''c.txt'', epath = ''disk:/docs/deep/deeper/c.txt'', esize = 4,
                etype = ''file''\<rparr>,
              \<lparr>ename = ''d.txt'', epath = ''disk:/docs/d.txt'', esize = 8, etype = ''file''\<rparr>]
         \<and> all_folders w' =
             [\<lparr>ename = ''deeper'', epath = ''disk:/docs/deep/deeper'', esize = 4, etype = ''dir''\<rparr>,
              \<lparr>ename = ''deep'', epath = ''disk:/docs/deep'', esize = 4, etype = ''dir''\<rparr>])"
proof -
  have d: "foldr max (map depth demo_tree) 0 < 4"
    by (simp add: demo_tree_def docs_def deep_def deeper_def)
  have d': "foldr max (map depth docs) 0 < 3"
    by (simp add: docs_def deep_def deeper_def)
  have r: "answers demo_server (remote fresh) ''/'' (map (item_of ''disk:'') demo_tree)"
    and l: "list_all (listed demo_server (remote fresh) ''disk:'') demo_tree"
    and r': "answers demo_server (remote fresh) ''disk:/docs'' (map (item_of ''disk:/docs'') docs)"
    and l': "list_all (listed demo_server (remote fresh) ''disk:/docs'') docs"
    using demo_root demo_listed demo_docs_root demo_docs_listed by (simp_all add: fresh_def)
  have e: "all_files fresh = []" "all_folders fresh = []"
    by (simp_all add: fresh_def)
  have t: "sum_list (map tree_size demo_tree) = 15" "sum_list (map tree_size docs) = 14"
    by (simp_all add: demo_tree_def docs_def deep_def deeper_def)
  have fs: "concat (map (files_of ''disk:'') demo_tree) =
             [\<lparr>ename = ''a.txt'', epath = ''disk:/a.txt'', esize = 1, etype = ''file''\<rparr>,
              \<lparr>ename = ''b.txt'', epath = ''disk:/docs/b.txt'', esize = 2, etype = ''file''\<rparr>,
              \<lparr>ename = ''c.txt'', epath = ''disk:/docs/deep/deeper/c.txt'', esize = 4,
                etype = ''file''\<rparr>,
              \<lparr>ename = ''d.txt'', epath = ''disk:/docs/d.txt'', esize = 8, etype = ''file''\<rparr>]"
    by (simp add: demo_tree_def docs_def deep_def deeper_def)
  have ds: "concat (map (folders_of ''disk:'') demo_tree) =
             [\<lparr>ename = ''deeper'', epath = ''disk:/docs/deep/deeper'', esize = 4, etype = ''dir''\<rparr>,
              \<lparr>ename = ''deep'', epath = ''disk:/docs/deep'', esize = 4, etype = ''dir''\<rparr>,
              \<lparr>ename = ''docs'', epath = ''disk:/docs'', esize = 14, etype = ''dir''\<rparr>,
              \<lparr>ename = ''docs2'', epath = ''disk:/docs2'', esize = 0, etype = ''dir''\<rparr>]"
    by (simp add: demo_tree_def docs_def deep_def deeper_def)
  have fs': "concat (map (files_of ''disk:/docs'') docs) =
             [\<lparr>ename = ''b.txt'', epath = ''disk:/docs/b.txt'', esize = 2, etype = ''file''\<rparr>,
              \<lparr>ename = ''c.txt'', epath = ''disk:/docs/deep/deeper/c.txt'', esize = 4,
                etype = ''file''\<rparr>,
              \<lparr>ename = ''d.txt'', epath = ''disk:/docs/d.txt'', esize = 8, etype = ''file''\<rparr>]"
    by (simp add: docs_def deep_def deeper_def)
  have ds': "concat (map (folders_of ''disk:/docs'') docs) =
             [\<lparr>ename = ''deeper'', epath = ''disk:/docs/deep/deeper'', esize = 4, etype = ''dir''\<rparr>,
              \<lparr>ename = ''deep'', epath = ''disk:/docs/deep'', esize = 4, etype = ''dir''\<rparr>]"
    by (simp add: docs_def deep_def deeper_def)
  have one: "\<exists>w'. parse_catalogues 4 demo_server ''/'' fresh = Returns 15 w'
         \<and> all_files w' = concat (map (files_of ''disk:'') demo_tree)
         \<and> all_folders w' = concat (map (folders_of ''disk:'') demo_tree)
         \<and> 15 = sum_list (map esize (all_files w'))
         \<and> (\<forall>F \<in> set (all_folders w').
               esize F = sum_list (map esize
                           (filter (\<lambda>f. is_descendant (epath f) (epath F)) (all_files w'))))"
    using walk_folder_sizes [OF r l demo_wf e d] unfolding t by blast
  have two: "\<exists>w'. parse_catalogues 3 demo_server ''disk:/docs'' fresh = Returns 14 w'
         \<and> all_files w' = concat (map (files_of ''disk:/docs'') docs)
         \<and> all_folders w' = concat (map (folders_of ''disk:/docs'') docs)"
    using walk_folder_sizes [OF r' l' demo_docs_wf e d'] unfolding t by blast
  from one two demo_root demo_listed demo_wf show ?thesis
    unfolding fs ds fs' ds' by blast
qed

subsection \<open>Deletion\<close>

lemma exchanges_append: "exchanges (es @ es') = exchanges es @ exchanges es'"
  by (induction es rule: exchanges.induct) simp_all

lemma deletions_append: "deletions (es @ es') = deletions es @ deletions es'"
  by (simp add: deletions_def exchanges_append)

lemma deletions_sent [simp]:
  "deletions [Sent q r] = (if verb_of q = DELETE then [(q, r)] else [])"
  by (simp add: deletions_def)

lemma exchanges_sent_map: "exchanges (map (Sent q) rs) = map (Pair q) rs"
  by (induction rs) simp_all

lemma requests_fields:
  "requests srv q w = (r, w1) \<Longrightarrow>
     r = fst (srv (remote w) q) \<and> remote w1 = snd (srv (remote w) q)
     \<and> all_files w1 = all_files w \<and> all_folders w1 = all_folders w
     \<and> out w1 = out w @ [Sent q r]"
  by (auto simp: requests_def split: prod.splits)

text \<open>The wait sends queries only, and ends in a 404.\<close>

lemma check_loop_log:
  "check_loop fuel srv param test w = Returns v w' \<Longrightarrow>
   \<exists>tests. out w' = out w @ map (Sent (Request GET URL param NoData)) tests
     \<and> status_code (last (test # tests)) = 404
     \<and> (\<forall>t \<in> set (butlast (test # tests)). status_code t \<noteq> 404)
     \<and> all_files w' = all_files w \<and> all_folders w' = all_folders w"
proof (induction fuel arbitrary: test w)
  case 0
  then show ?case by (auto split: if_splits intro: exI [of _ "[]"])
next
  case (Suc fuel)
  show ?case
  proof (cases "status_code test = 404")
    case True
    with Suc.prems show ?thesis by (auto intro: exI [of _ "[]"])
  next
    case False
    obtain t w1 where rq: "requests srv (Request GET URL param NoData) w = (t, w1)"
      by (cases "requests srv (Request GET URL param NoData) w")
    with False Suc.prems have "check_loop fuel srv param t w1 = Returns v w'" by simp
    from Suc.IH [OF this] obtain tests where
      t: "out w' = out w1 @ map (Sent (Request GET URL param NoData)) tests"
         "status_code (last (t # tests)) = 404"
         "\<forall>x \<in> set (butlast (t # tests)). status_code x \<noteq> 404"
         "all_files w' = all_files w1" "all_folders w' = all_folders w1"
      by blast
    from requests_fields [OF rq] have f: "out w1 = out w @ [Sent (Request GET URL param NoData) t]"
      "all_files w1 = all_files w" "all_folders w1 = all_folders w" by simp_all
    show ?thesis
      by (rule exI [of _ "t # tests"]) (use t f False in simp)
  qed
qed

lemma check_existance_log:
  assumes "check_existance fuel srv param w = Returns v w'"
  shows "\<exists>tests. out w' = out w @ map (Sent (Request GET URL param NoData)) tests
     \<and> tests \<noteq> [] \<and> status_code (last tests) = 404
     \<and> (\<forall>t \<in> set (butlast tests). status_code t \<noteq> 404)
     \<and> all_files w' = all_files w \<and> all_folders w' = all_folders w"
proof -
  obtain t w1 where rq: "requests srv (Request GET URL param NoData) w = (t, w1)"
    by (cases "requests srv (Request GET URL param NoData) w")
  with assms have "check_loop fuel srv param t w1 = Returns v w'"
    by (simp add: check_existance_def)
  from check_loop_log [OF this] obtain tests where
    t: "out w' = out w1 @ map (Sent (Request GET URL param NoData)) tests"
       "status_code (last (t # tests)) = 404"
       "\<forall>x \<in> set (butlast (t # tests)). status_code x \<noteq> 404"
       "all_files w' = all_files w1" "all_folders w' = all_folders w1"
    by blast
  from requests_fields [OF rq] have f: "out w1 = out w @ [Sent (Request GET URL param NoData) t]"
    "all_files w1 = all_files w" "all_folders w1 = all_folders w" by simp_all
  show ?thesis
    by (rule exI [of _ "t # tests"]) (use t f in simp)
qed

lemma delete_object_fails:
  "srv (remote w) (delete_request perm obj) = (put, s') \<Longrightarrow> 300 \<le> status_code put \<Longrightarrow>
   delete_object fuel srv perm obj w
     = Returns (Some (status_code put, json put))
         (emit (Sent (delete_request perm obj) put) (w\<lparr>remote := s'\<rparr>))"
  by (simp add: delete_object_def delete_request_def requests_def)

lemma delete_object_log:
  assumes "delete_object fuel srv perm obj w = Returns None w'"
  shows "\<exists>put tests. out w' = out w @ Sent (delete_request perm obj) put
                                  # map (Sent (poll_request perm obj)) tests
     \<and> status_code put < 300
     \<and> tests \<noteq> [] \<and> status_code (last tests) = 404
     \<and> (\<forall>t \<in> set (butlast tests). status_code t \<noteq> 404)
     \<and> all_files w' = all_files w \<and> all_folders w' = all_folders w"
proof -
  obtain put w1 where rq: "requests srv (delete_request perm obj) w = (put, w1)"
    by (cases "requests srv (delete_request perm obj) w")
  from requests_fields [OF rq] have f: "out w1 = out w @ [Sent (delete_request perm obj) put]"
    "all_files w1 = all_files w" "all_folders w1 = all_folders w" by simp_all
  from assms rq have lt: "status_code put < 300"
    by (auto simp: delete_object_def delete_request_def split: if_splits)
  with assms rq obtain v where "check_existance fuel srv (delete_param perm obj) w1 = Returns v w'"
    by (auto simp: delete_object_def delete_request_def split: outcome.splits)
  from check_existance_log [OF this] obtain tests where
    t: "out w' = out w1 @ map (Sent (Request GET URL (delete_param perm obj) NoData)) tests"
       "tests \<noteq> []" "status_code (last tests) = 404"
       "\<forall>x \<in> set (butlast tests). status_code x \<noteq> 404"
       "all_files w' = all_files w1" "all_folders w' = all_folders w1"
    by blast
  show ?thesis
    apply (rule exI [of _ put])
    apply (rule exI [of _ tests])
    using t f lt by (simp add: poll_request_def)
qed

lemma delete_objects_append:
  "delete_objects fuel srv perm pre w = Returns None w1 \<Longrightarrow>
   delete_objects fuel srv perm (pre @ rest) w = delete_objects fuel srv perm rest w1"
proof (induction pre arbitrary: w)
  case Nil
  then show ?case by simp
next
  case (Cons obj pre)
  from Cons.prems obtain w2 where o: "delete_object fuel srv perm obj w = Returns None w2"
    and r: "delete_objects fuel srv perm pre w2 = Returns None w1"
    by (auto split: outcome.splits option.splits)
  from Cons.IH [OF r] o show ?case by simp
qed

lemma deletions_polls [simp]: "deletions (map (Sent (poll_request perm obj)) tests) = []"
  by (simp add: deletions_def exchanges_sent_map poll_request_def filter_empty_conv)

lemma verbs_polls:
  "set (map (verb_of \<circ> fst) (exchanges (map (Sent (poll_request perm obj)) tests))) \<subseteq> {GET, DELETE}"
  by (auto simp: exchanges_sent_map poll_request_def)

lemma delete_objects_log:
  "delete_objects fuel srv perm objs w = Returns None w' \<Longrightarrow>
   \<exists>es. out w' = out w @ es
     \<and> map fst (deletions es) = map (delete_request perm) objs
     \<and> (\<forall>x \<in> set (deletions es). status_code (snd x) < 300)
     \<and> set (map (verb_of \<circ> fst) (exchanges es)) \<subseteq> {GET, DELETE}
     \<and> all_files w' = all_files w \<and> all_folders w' = all_folders w"
proof (induction objs arbitrary: w)
  case Nil
  then show ?case by (simp add: deletions_def)
next
  case (Cons obj objs)
  from Cons.prems obtain w2 where o: "delete_object fuel srv perm obj w = Returns None w2"
    and r: "delete_objects fuel srv perm objs w2 = Returns None w'"
    by (auto split: outcome.splits option.splits)
  from delete_object_log [OF o] obtain put tests where
    a: "out w2 = out w @ Sent (delete_request perm obj) put # map (Sent (poll_request perm obj)) tests"
       "status_code put < 300" "all_files w2 = all_files w" "all_folders w2 = all_folders w"
    by blast
  from Cons.IH [OF r] obtain es where
    b: "out w' = out w2 @ es" "map fst (deletions es) = map (delete_request perm) objs"
       "\<forall>x \<in> set (deletions es). status_code (snd x) < 300"
       "set (map (verb_of \<circ> fst) (exchanges es)) \<subseteq> {GET, DELETE}"
       "all_files w' = all_files w2" "all_folders w' = all_folders w2"
    by blast
  let ?es = "Sent (delete_request perm obj) put # map (Sent (poll_request perm obj)) tests @ es"
  have d: "deletions ?es = (delete_request perm obj, put) # deletions es"
  proof -
    have "?es = [Sent (delete_request perm obj) put]
                 @ map (Sent (poll_request perm obj)) tests @ es"
      by simp
    then have "deletions ?es = deletions [Sent (delete_request perm obj) put]
                 @ deletions (map (Sent (poll_request perm obj)) tests) @ deletions es"
      by (simp only: deletions_append)
    then show ?thesis by (simp add: delete_request_def)
  qed
  have e: "set (map (verb_of \<circ> fst) (exchanges ?es)) \<subseteq> {GET, DELETE}"
    using b(4) verbs_polls [of perm obj tests]
    by (simp add: exchanges_append delete_request_def)
  show ?case
    apply (rule exI [of _ ?es])
    using a b d e by simp
qed


text \<open>
  C4.  Let \<^verbatim>\<open>delete\<close> be given the list \<open>pre @ bad # post\<close>.  Let the loop over
  \<open>pre\<close> run to its end, in the world \<open>w1\<close>: every object of \<open>pre\<close> was deleted and
  waited for.  Let the service answer the DELETE for \<open>bad\<close> with a status from 300
  up.  Then \<^verbatim>\<open>delete\<close> returns the pair of that status and that body, in the world
  \<open>w1\<close> with this one exchange added and nothing else: no request for an object of
  \<open>post\<close>, no \<^verbatim>\<open>reload\<close>.  Up to \<open>w1\<close> the DELETE requests sent are those for the
  objects of \<open>pre\<close>, in the order of the list, each answered below 300; every
  request sent is a DELETE or a GET, so nothing is restored; and the catalogue is
  as it was.
\<close>

theorem delete_list_stops_at_first_failure:
  assumes pre: "delete_objects fuel srv (permanent = ''1'') pre
                  (py_print Prompt (py_print Deleting w)) = Returns None w1"
    and bad: "srv (remote w1) (delete_request (permanent = ''1'') bad) = (put, s')"
    and code: "300 \<le> status_code put"
  shows "delete fuel srv permanent (Many (pre @ bad # post)) w
           = Returns (Failure (status_code put) (json put))
               (emit (Sent (delete_request (permanent = ''1'') bad) put) (w1\<lparr>remote := s'\<rparr>))
       \<and> (\<exists>es. out w1 = out w @ [Printed Deleting, Printed Prompt] @ es
             \<and> map fst (deletions es) = map (delete_request (permanent = ''1'')) pre
             \<and> (\<forall>x \<in> set (deletions es). status_code (snd x) < 300)
             \<and> set (map (verb_of \<circ> fst) (exchanges es)) \<subseteq> {GET, DELETE})
       \<and> all_files w1 = all_files w \<and> all_folders w1 = all_folders w"
proof -
  let ?perm = "permanent = ''1''"
  let ?w0 = "py_print Prompt (py_print Deleting w)"
  have one: "delete_object fuel srv ?perm bad w1
               = Returns (Some (status_code put, json put))
                   (emit (Sent (delete_request ?perm bad) put) (w1\<lparr>remote := s'\<rparr>))"
    using delete_object_fails [of srv w1 ?perm bad put s' fuel] bad code by simp
  have "delete_objects fuel srv ?perm (pre @ bad # post) ?w0
          = delete_objects fuel srv ?perm (bad # post) w1"
    using pre by (rule delete_objects_append)
  with one have run: "delete_objects fuel srv ?perm (pre @ bad # post) ?w0
          = Returns (Some (status_code put, json put))
              (emit (Sent (delete_request ?perm bad) put) (w1\<lparr>remote := s'\<rparr>))"
    by simp
  have res: "delete fuel srv permanent (Many (pre @ bad # post)) w
           = Returns (Failure (status_code put) (json put))
               (emit (Sent (delete_request ?perm bad) put) (w1\<lparr>remote := s'\<rparr>))"
    unfolding delete_def Let_def using run by simp
  from delete_objects_log [OF pre] obtain es where
    es: "out w1 = out ?w0 @ es" "map fst (deletions es) = map (delete_request ?perm) pre"
        "\<forall>x \<in> set (deletions es). status_code (snd x) < 300"
        "set (map (verb_of \<circ> fst) (exchanges es)) \<subseteq> {GET, DELETE}"
        "all_files w1 = all_files ?w0" "all_folders w1 = all_folders ?w0"
    by blast
  have "out w1 = out w @ [Printed Deleting, Printed Prompt] @ es"
    using es(1) by simp
  with es(2-4) have log: "\<exists>es. out w1 = out w @ [Printed Deleting, Printed Prompt] @ es
             \<and> map fst (deletions es) = map (delete_request ?perm) pre
             \<and> (\<forall>x \<in> set (deletions es). status_code (snd x) < 300)
             \<and> set (map (verb_of \<circ> fst) (exchanges es)) \<subseteq> {GET, DELETE}"
    by blast
  from res log es(5,6) show ?thesis by simp
qed

theorem delete_list_stops_at_first_failure_witness:
  "\<exists>w1. delete_objects 3 slow_server True [obj_x]
            (py_print Prompt (py_print Deleting slow_world)) = Returns None w1
       \<and> slow_server (remote w1) (delete_request True obj_locked) = (answer 423 ''locked'', 0)
       \<and> delete 3 slow_server ''1'' (Many [obj_x, obj_locked, obj_y]) slow_world
           = Returns (Failure 423 \<lparr>j_href = None, j_message = Some ''locked'', j_items = None\<rparr>)
               (emit (Sent (delete_request True obj_locked) (answer 423 ''locked''))
                  (w1\<lparr>remote := 0\<rparr>))
       \<and> (\<exists>es. out w1 = [Printed Deleting, Printed Prompt] @ es
             \<and> map fst (deletions es) = [delete_request True obj_x]
             \<and> (\<forall>x \<in> set (deletions es). status_code (snd x) < 300)
             \<and> set (map (verb_of \<circ> fst) (exchanges es)) \<subseteq> {GET, DELETE})
       \<and> all_files w1 = [obj_x, obj_locked, obj_y] \<and> all_folders w1 = []"
proof -
  have "\<exists>w1. delete_objects 3 slow_server (''1'' = ''1'') [obj_x]
               (py_print Prompt (py_print Deleting slow_world)) = Returns None w1
            \<and> remote w1 = 0"
    by (simp add: eval_nat_numeral delete_object_def check_existance_def requests_def
        slow_server_def delete_param_def obj_x_def slow_world_def URL_def answer_def
        py_print_def emit_def)
  then obtain w1 where a: "delete_objects 3 slow_server (''1'' = ''1'') [obj_x]
               (py_print Prompt (py_print Deleting slow_world)) = Returns None w1"
    and b: "remote w1 = 0"
    by blast
  have c: "slow_server (remote w1) (delete_request (''1'' = ''1'') obj_locked)
             = (answer 423 ''locked'', 0)"
    using b by (simp add: slow_server_def delete_request_def delete_param_def obj_locked_def)
  have d: "300 \<le> status_code (answer 423 ''locked'')"
    by (simp add: answer_def)
  from delete_list_stops_at_first_failure
         [where fuel = 3 and srv = slow_server and permanent = "''1''" and pre = "[obj_x]"
            and w = slow_world and ?w1.0 = w1 and bad = obj_locked
            and put = "answer 423 ''locked''" and s' = 0 and post = "[obj_y]", OF a c d]
       a c
  show ?thesis
    by (simp add: answer_def slow_world_def)
qed


subsection \<open>What a run leaves of the service\<close>















subsection \<open>What a walk adds to the log\<close>

lemma queries_only_simps [simp]:
  "queries_only []"
  "queries_only (Printed m # es) = queries_only es"
  "queries_only (Sent q r # es) = (verb_of q = GET \<and> queries_only es)"
  "queries_only (es @ es') = (queries_only es \<and> queries_only es')"
  by (auto simp: queries_only_def exchanges_append)





subsection \<open>The wait for the 404\<close>


lemma fold_py_print_fields [simp]:
  "remote (fold (\<lambda>(num, d). py_print (m num d)) xs w) = remote w"
  "out (fold (\<lambda>(num, d). py_print (m num d)) xs w)
     = out w @ map (\<lambda>(num, d). Printed (m num d)) xs"
  by (induction xs arbitrary: w) (auto split: prod.splits)




subsection \<open>Uploads\<close>

lemma printed_append: "printed (es @ es') = printed es @ printed es'"
  by (induction es rule: printed.induct) simp_all

lemma upload_folder_files_all_skipped:
  assumes none: "\<forall>s q. j_href (json (fst (srv s q))) = None"
  shows "\<exists>w' es. upload_folder_files srv fs folder_path files w = Returns () w'
           \<and> out w' = out w @ es \<and> printed es = map AlreadyUploaded files
           \<and> queries_only es
           \<and> all_files w' = all_files w \<and> all_folders w' = all_folders w"
proof (induction files arbitrary: w)
  case Nil
  then show ?case by simp
next
  case (Cons nm rest)
  let ?q = "Request GET (URL @ ''/upload'') [(''path'', Str (folder_path @ ''/'' @ nm))] NoData"
  obtain r w1 where rq: "requests srv ?q w = (r, w1)"
    by (cases "requests srv ?q w")
  from requests_fields [OF rq] have f: "r = fst (srv (remote w) ?q)"
    "out w1 = out w @ [Sent ?q r]" "all_files w1 = all_files w" "all_folders w1 = all_folders w"
    by simp_all
  from f(1) none have h: "j_href (json r) = None" by simp
  from Cons.IH [of "py_print (AlreadyUploaded nm) w1"] obtain w' es where
    a: "upload_folder_files srv fs folder_path rest (py_print (AlreadyUploaded nm) w1)
          = Returns () w'"
       "out w' = out (py_print (AlreadyUploaded nm) w1) @ es"
       "printed es = map AlreadyUploaded rest" "queries_only es"
       "all_files w' = all_files (py_print (AlreadyUploaded nm) w1)"
       "all_folders w' = all_folders (py_print (AlreadyUploaded nm) w1)"
    by blast
  let ?es = "[Sent ?q r, Printed (AlreadyUploaded nm)] @ es"
  have "upload_folder_files srv fs folder_path (nm # rest) w = Returns () w'"
    using rq h a(1) by simp
  moreover have "out w' = out w @ ?es" using a(2) f(2) by simp
  moreover have "printed ?es = map AlreadyUploaded (nm # rest)" using a(3) by simp
  moreover have "queries_only ?es" using a(4) by simp
  ultimately show ?case using a(5,6) f(3,4) by auto
qed

text \<open>
  C8.  When the answer to the request for the upload address has no \<^verbatim>\<open>href\<close>:
  \<^item> the loop of \<^verbatim>\<open>_upload_folder\<close> prints that the file was uploaded before, sends
    nothing for it, and goes on with the rest of the listing as it would have
    without the file;
  \<^item> \<^verbatim>\<open>_upload_file\<close> (which asks twice and reads the second answer) prints the same
    line and returns;
  \<^item> and when no answer has one, the loop of \<^verbatim>\<open>_upload_folder\<close> returns for every
    listing, having printed that line once per name, in order, and having sent
    queries only.
  Nothing is raised in any of these cases.
\<close>

theorem missing_href_is_skipped:
  "(srv (remote w) (upload_query (folder_path @ ''/'' @ fname)) = (r, s') \<and> j_href (json r) = None
      \<longrightarrow> upload_folder_files srv fs folder_path (fname # rest) w
            = upload_folder_files srv fs folder_path rest
                (py_print (AlreadyUploaded fname)
                   (emit (Sent (upload_query (folder_path @ ''/'' @ fname)) r)
                      (w\<lparr>remote := s'\<rparr>))))
   \<and> (srv (remote w) (upload_query (targetpath @ ''/'' @ fname)) = (r1, s1)
        \<and> srv s1 (upload_query (targetpath @ ''/'' @ fname)) = (r2, s2)
        \<and> j_href (json r2) = None
      \<longrightarrow> upload_file srv fs fname targetpath fullpath w
            = Returns ()
                (py_print (AlreadyUploaded fname)
                   (emit (Sent (upload_query (targetpath @ ''/'' @ fname)) r2)
                      ((py_print (Json (json r1))
                          (emit (Sent (upload_query (targetpath @ ''/'' @ fname)) r1)
                             ((py_print (Param [(''path'', Str (targetpath @ ''/'' @ fname))]) w)
                                \<lparr>remote := s1\<rparr>)))
                         \<lparr>remote := s2\<rparr>))))
   \<and> ((\<forall>s q. j_href (json (fst (srv s q))) = None)
      \<longrightarrow> (\<exists>w' es. upload_folder_files srv fs folder_path files w = Returns () w'
             \<and> out w' = out w @ es \<and> printed es = map AlreadyUploaded files
             \<and> queries_only es))"
proof (intro conjI impI)
  assume "srv (remote w) (upload_query (folder_path @ ''/'' @ fname)) = (r, s') \<and> j_href (json r) = None"
  then show "upload_folder_files srv fs folder_path (fname # rest) w
            = upload_folder_files srv fs folder_path rest
                (py_print (AlreadyUploaded fname)
                   (emit (Sent (upload_query (folder_path @ ''/'' @ fname)) r)
                      (w\<lparr>remote := s'\<rparr>)))"
    by (simp add: upload_query_def requests_def)
next
  assume "srv (remote w) (upload_query (targetpath @ ''/'' @ fname)) = (r1, s1)
        \<and> srv s1 (upload_query (targetpath @ ''/'' @ fname)) = (r2, s2)
        \<and> j_href (json r2) = None"
  then show "upload_file srv fs fname targetpath fullpath w
            = Returns ()
                (py_print (AlreadyUploaded fname)
                   (emit (Sent (upload_query (targetpath @ ''/'' @ fname)) r2)
                      ((py_print (Json (json r1))
                          (emit (Sent (upload_query (targetpath @ ''/'' @ fname)) r1)
                             ((py_print (Param [(''path'', Str (targetpath @ ''/'' @ fname))]) w)
                                \<lparr>remote := s1\<rparr>)))
                         \<lparr>remote := s2\<rparr>)))"
    by (simp add: upload_file_def upload_query_def requests_def Let_def)
next
  assume "\<forall>s q. j_href (json (fst (srv s q))) = None"
  from upload_folder_files_all_skipped [OF this, of fs folder_path files w]
  show "\<exists>w' es. upload_folder_files srv fs folder_path files w = Returns () w'
             \<and> out w' = out w @ es \<and> printed es = map AlreadyUploaded files
             \<and> queries_only es"
    by blast
qed

theorem missing_href_is_skipped_witness:
  "full_server (remote fresh) (upload_query ''d/a.txt'') = (answer 409 ''already exists'', ())
   \<and> j_href (json (answer 409 ''already exists'')) = None
   \<and> (\<forall>s q. j_href (json (fst (full_server s q))) = None)
   \<and> upload_folder_files full_server local_d ''d'' [''a.txt'', ''b.txt''] fresh
       = Returns ()
           (fresh\<lparr>out := [Sent (upload_query ''d/a.txt'') (answer 409 ''already exists''),
                           Printed (AlreadyUploaded ''a.txt''),
                           Sent (upload_query ''d/b.txt'') (answer 409 ''already exists''),
                           Printed (AlreadyUploaded ''b.txt'')]\<rparr>)
   \<and> upload_file full_server local_d ''a.txt'' ''d'' (os_path_join ''d'' ''a.txt'') fresh
       = Returns ()
           (fresh\<lparr>out := [Printed (Param [(''path'', Str ''d/a.txt'')]),
                           Sent (upload_query ''d/a.txt'') (answer 409 ''already exists''),
                           Printed (Json (json (answer 409 ''already exists''))),
                           Sent (upload_query ''d/a.txt'') (answer 409 ''already exists''),
                           Printed (AlreadyUploaded ''a.txt'')]\<rparr>)
   \<and> (\<exists>w' es. upload_folder_files full_server local_d ''d'' [''a.txt'', ''b.txt''] fresh
                 = Returns () w'
         \<and> out w' = out fresh @ es
         \<and> printed es = [AlreadyUploaded ''a.txt'', AlreadyUploaded ''b.txt'']
         \<and> queries_only es)"
  using missing_href_is_skipped
          [where srv = full_server and w = fresh and folder_path = "''d''" and fname = "''a.txt''"
             and r = "answer 409 ''already exists''" and s' = "()" and rest = "[''b.txt'']"
             and fs = local_d and targetpath = "''d''" and ?r1.0 = "answer 409 ''already exists''"
             and ?s1.0 = "()" and ?r2.0 = "answer 409 ''already exists''" and ?s2.0 = "()"
             and fullpath = "os_path_join ''d'' ''a.txt''" and files = "[''a.txt'', ''b.txt'']"]
  by (simp add: full_server_def answer_def fresh_def upload_query_def requests_def
      py_print_def emit_def)

subsubsection \<open>A directory that holds a directory\<close>

lemma upload_folder_files_append:
  "upload_folder_files srv fs folder_path pre w = Returns () w1 \<Longrightarrow>
   upload_folder_files srv fs folder_path (pre @ rest) w
     = upload_folder_files srv fs folder_path rest w1"
proof (induction pre arbitrary: w)
  case Nil
  then show ?case by simp
next
  case (Cons nm pre)
  let ?q = "Request GET (URL @ ''/upload'') [(''path'', Str (folder_path @ ''/'' @ nm))] NoData"
  obtain r wa where rq: "requests srv ?q w = (r, wa)"
    by (cases "requests srv ?q w")
  show ?case
  proof (cases "j_href (json r)")
    case None
    with Cons.prems rq
    have "upload_folder_files srv fs folder_path pre (py_print (AlreadyUploaded nm) wa)
            = Returns () w1"
      by simp
    from Cons.IH [OF this] rq None show ?thesis by simp
  next
    case (Some href)
    show ?thesis
    proof (cases "open_rb fs (os_path_join folder_path nm)")
      case None
      with Cons.prems rq Some show ?thesis by simp
    next
      case (Some content)
      obtain r2 wb where rp: "requests srv (Request PUT href [] (FileData content)) wa = (r2, wb)"
        by (cases "requests srv (Request PUT href [] (FileData content)) wa")
      with Cons.prems rq \<open>j_href (json r) = Some href\<close> Some
      have "upload_folder_files srv fs folder_path pre wb = Returns () w1"
        by simp
      from Cons.IH [OF this] rq rp \<open>j_href (json r) = Some href\<close> Some show ?thesis by simp
    qed
  qed
qed

text \<open>
  C9 fails on a directory that holds a directory.  \<^verbatim>\<open>os.listdir\<close> names the
  subdirectory with the files.  Let the loop have run through the names before it,
  and let the service have an upload address for it.  Then \<^verbatim>\<open>open\<close> raises on it,
  nothing catches that, and \<^verbatim>\<open>_upload_folder\<close> ends there: the names after it are
  neither asked about nor uploaded.
\<close>

theorem upload_folder_stops_at_subdirectory:
  assumes lst: "listdir fs folder_path = Some (pre @ sub # post)"
    and pre: "upload_folder_files srv fs folder_path pre w = Returns () w1"
    and q: "srv (remote w1) (upload_query (folder_path @ ''/'' @ sub)) = (r, s')"
    and href: "j_href (json r) = Some href"
    and dir: "open_rb fs (os_path_join folder_path sub) = None"
  shows "upload_folder srv fs folder_path w
           = Raises OSError
               (emit (Sent (upload_query (folder_path @ ''/'' @ sub)) r) (w1\<lparr>remote := s'\<rparr>))"
proof -
  have "upload_folder_files srv fs folder_path (pre @ sub # post) w
          = upload_folder_files srv fs folder_path (sub # post) w1"
    using pre by (rule upload_folder_files_append)
  also have "\<dots> = Raises OSError
               (emit (Sent (upload_query (folder_path @ ''/'' @ sub)) r) (w1\<lparr>remote := s'\<rparr>))"
    using q href dir by (simp add: upload_query_def requests_def)
  finally show ?thesis using lst by (simp add: upload_folder_def)
qed

text \<open>
  The whole of \<^verbatim>\<open>upload('d')\<close> for the local directory \<^verbatim>\<open>d\<close> that holds the
  directory \<^verbatim>\<open>sub\<close> and the file \<^verbatim>\<open>a.txt\<close>, on a service that has an upload address
  for every path: OSError, after the request for the address of \<^verbatim>\<open>d/sub\<close>; no PUT
  was sent, so \<^verbatim>\<open>a.txt\<close> was not uploaded.
\<close>

theorem upload_folder_stops_at_subdirectory_witness:
  "listdir local_d ''d'' = Some ([] @ ''sub'' # [''a.txt''])
   \<and> open_rb local_d (os_path_join ''d'' ''sub'') = None
   \<and> open_rb local_d (os_path_join ''d'' ''a.txt'') = Some ''content of a''
   \<and> upload_folder open_server local_d ''d'' fresh
       = Raises OSError
           (fresh\<lparr>out := [Sent (upload_query ''d/sub'')
                            \<lparr>status_code = 200,
                             json = \<lparr>j_href = Some ''up:d/sub'', j_message = None,
                                     j_items = None\<rparr>\<rparr>]\<rparr>)
   \<and> (\<exists>w'. upload 2 open_server local_d (Name ''d'') fresh = Raises OSError w'
         \<and> puts (out w') = []
         \<and> last (out w') = Sent (upload_query ''d/sub'')
                            \<lparr>status_code = 200,
                             json = \<lparr>j_href = Some ''up:d/sub'', j_message = None,
                                     j_items = None\<rparr>\<rparr>)"
proof -
  have a: "listdir local_d ''d'' = Some ([] @ ''sub'' # [''a.txt''])"
    and b: "open_rb local_d (os_path_join ''d'' ''sub'') = None"
    and c: "open_rb local_d (os_path_join ''d'' ''a.txt'') = Some ''content of a''"
    by (simp_all add: local_d_def os_path_join_def backslash_def)
  have d: "upload_folder_files open_server local_d ''d'' [] fresh = Returns () fresh"
    by simp
  have e: "open_server (remote fresh) (upload_query (''d'' @ ''/'' @ ''sub''))
             = (\<lparr>status_code = 200,
                 json = \<lparr>j_href = Some ''up:d/sub'', j_message = None, j_items = None\<rparr>\<rparr>, ())"
    by (simp add: open_server_def upload_query_def)
  have f: "upload_folder open_server local_d ''d'' fresh
       = Raises OSError
           (fresh\<lparr>out := [Sent (upload_query ''d/sub'')
                            \<lparr>status_code = 200,
                             json = \<lparr>j_href = Some ''up:d/sub'', j_message = None,
                                     j_items = None\<rparr>\<rparr>]\<rparr>)"
    using upload_folder_stops_at_subdirectory [OF a d e _ b]
    by (simp add: emit_def fresh_def)
  have g: "\<exists>w'. upload 2 open_server local_d (Name ''d'') fresh = Raises OSError w'
         \<and> puts (out w') = []
         \<and> last (out w') = Sent (upload_query ''d/sub'')
                            \<lparr>status_code = 200,
                             json = \<lparr>j_href = Some ''up:d/sub'', j_message = None,
                                     j_items = None\<rparr>\<rparr>"
    by (simp add: numeral_2_eq_2 Let_def upload_def find_local_def local_d_def os_path_join_def
        backslash_def py_split_def replace_backslash_def check_folder_exist_def create_folder_def
        folder_param_def reload_and_list_def reload_def print_all_def bad_obj_type_def
        upload_folder_def requests_def open_server_def upload_query_def URL_def ok_def answer_def
        fresh_def py_print_def emit_def puts_def)
  from a b c f g show ?thesis by blast
qed

subsection \<open>The target of a zip upload\<close>














subsection \<open>Folder creation\<close>

lemma fold_py_print_catalogue [simp]:
  "all_files (fold (\<lambda>(num, d). py_print (m num d)) xs w) = all_files w"
  "all_folders (fold (\<lambda>(num, d). py_print (m num d)) xs w) = all_folders w"
  by (induction xs arbitrary: w) (auto split: prod.splits)





subsubsection \<open>The catalogue holds no folder twice\<close>






subsubsection \<open>The branches of \<^verbatim>\<open>create_folder\<close>\<close>



lemma create_folder_other:
  assumes "folder_param tree folder_name path w = Returns param w0"
    and "srv (remote w0) (Request GET URL param NoData) = (test, s1)"
    and "status_code test \<noteq> 200" and "status_code test \<noteq> 404"
  shows "create_folder fuel srv tree folder_name path w
           = reload_and_list fuel srv
               (py_print (ResponseObject (status_code test))
                  (emit (Sent (Request GET URL param NoData) test) (w0\<lparr>remote := s1\<rparr>)))"
  using assms by (simp add: create_folder_def requests_def)









subsection \<open>The target folder of an upload\<close>


lemma puts_simps [simp]:
  "puts [] = []"
  "puts (Printed m # es) = puts es"
  "puts (Sent q r # es) = (if verb_of q = PUT then (q, r) # puts es else puts es)"
  by (simp_all add: puts_def)










end
